theory Spec2Isabelle
  imports Complex_Main "HOL-Library.Sublist"
begin

section \<open>Python strings\<close>

text \<open>
  A Python \<open>str\<close> is modelled as a \<open>string\<close>; each \<open>char\<close> stands for the code point of
  the same number, so the model covers the names written in Latin-1 (code points below 256).
\<close>

text \<open>
  \<open>str.isspace\<close> on one character: the white space of \<open>str.strip()\<close>. Below 256 these are
  TAB, LF, VT, FF, CR, the separators FS, GS, RS and US, the space, NEL and the no-break space.
\<close>

definition is_space :: "char \<Rightarrow> bool" where
  "is_space c \<longleftrightarrow> c \<in> set [CHR 0x09, CHR 0x0A, CHR 0x0B, CHR 0x0C, CHR 0x0D,
     CHR 0x1C, CHR 0x1D, CHR 0x1E, CHR 0x1F, CHR '' '', CHR 0x85, CHR 0xA0]"

text \<open>\<open>s.strip()\<close>: the white space at both ends is removed, the inside is kept.\<close>

definition strip :: "string \<Rightarrow> string" where
  "strip s = rev (dropWhile is_space (rev (dropWhile is_space s)))"

text \<open>
  \<open>s.replace(old, new)\<close>: every occurrence of \<open>old\<close>, found from the left and without
  overlap, becomes \<open>new\<close>. With an empty \<open>old\<close> Python puts \<open>new\<close> before every character
  and at the end.
\<close>

function replace_from :: "string \<Rightarrow> string \<Rightarrow> string \<Rightarrow> string" where
  "replace_from old new [] = []"
| "replace_from old new (c # cs) =
     (if prefix old (c # cs) then new @ replace_from old new (drop (length old - 1) cs)
      else c # replace_from old new cs)"
  by pat_completeness auto
termination
  by (relation "measure (\<lambda>(old, new, s). length s)") auto

definition replace :: "string \<Rightarrow> string \<Rightarrow> string \<Rightarrow> string" where
  "replace old new s =
     (if old = [] then new @ concat (map (\<lambda>c. c # new) s) else replace_from old new s)"

text \<open>
  \<open>s.lower()\<close> on one character: the letters A to Z, and the Latin-1 capitals from
  0xC0 to 0xDE without the multiplication sign 0xD7, move up by 32; nothing else changes.
\<close>

definition is_upper :: "char \<Rightarrow> bool" where
  "is_upper c =
     (let n = (of_char c :: nat)
      in (65 \<le> n \<and> n \<le> 90) \<or> (192 \<le> n \<and> n \<le> 222 \<and> n \<noteq> 215))"

text \<open>On these letters the bit of value 32 is clear, so setting it adds 32.\<close>

definition lower_char :: "char \<Rightarrow> char" where
  "lower_char c =
     (if is_upper c
      then (case c of Char b0 b1 b2 b3 b4 b5 b6 b7 \<Rightarrow> Char b0 b1 b2 b3 b4 True b6 b7)
      else c)"

definition lower :: "string \<Rightarrow> string" where
  "lower s = map lower_char s"

text \<open>\<open>sub in s\<close> on strings: \<open>sub\<close> occurs in \<open>s\<close> as a contiguous piece.\<close>

fun contains :: "string \<Rightarrow> string \<Rightarrow> bool" where
  "contains sub [] = (sub = [])"
| "contains sub (c # cs) = (prefix sub (c # cs) \<or> contains sub cs)"

section \<open>Schema Normalizer: column names\<close>

text \<open>
  Line 46 of \<open>pipeline.py\<close>, for one column name:
  \<^verbatim>\<open>col.strip().replace(" ", "_").replace("/", "_").replace("?", "").replace("-", "_").replace("&", "and")\<close>
\<close>

definition clean_name :: "string \<Rightarrow> string" where
  "clean_name col =
     replace ''&'' ''and'' (replace ''-'' ''_'' (replace ''?'' '''' (replace ''/'' ''_''
       (replace '' '' ''_'' (strip col)))))"

text \<open>
  The rule as the specification words it: the substitutions first, the trimming of white
  space on their result.
\<close>

definition spec_clean_name :: "string \<Rightarrow> string" where
  "spec_clean_name col =
     strip (replace ''&'' ''and'' (replace ''-'' ''_'' (replace ''?'' '''' (replace ''/'' ''_''
       (replace '' '' ''_'' col)))))"

text \<open>What the five substitutions do to one character.\<close>

definition subst_char :: "char \<Rightarrow> string" where
  "subst_char c =
     (if c = CHR '' '' \<or> c = CHR ''/'' \<or> c = CHR ''-'' then ''_''
      else if c = CHR ''?'' then ''''
      else if c = CHR ''&'' then ''and''
      else [c])"

text \<open>The five characters the substitutions look for.\<close>

definition special :: "char \<Rightarrow> bool" where
  "special c \<longleftrightarrow>
     c = CHR '' '' \<or> c = CHR ''/'' \<or> c = CHR ''?'' \<or> c = CHR ''-'' \<or> c = CHR ''&''"

section \<open>Values and frames\<close>

text \<open>
  A Python \<open>float\<close>: a finite value (every double is a rational number), the two
  infinities and not-a-number.
\<close>

datatype pyfloat = Finite rat | PosInf | NegInf | NaN

type_synonym timestamp = int

text \<open>
  What a cell of the frame, or a parameter of the insert, can hold: \<open>None\<close>, a \<open>str\<close>, an
  integer, a \<open>float\<close> (pandas writes a missing cell as the float \<open>NaN\<close>), a boolean, a
  \<open>Timestamp\<close>, the missing timestamp \<open>NaT\<close>, and the \<open>Series\<close> that \<open>row.get\<close> returns for a
  label carried by several columns.
\<close>

datatype pyval =
    PNone
  | PStr string
  | PInt int
  | PFloat pyfloat
  | PBool bool
  | PTime timestamp
  | PNaT
  | PSeries "pyval list"

datatype pyerr = ValueError | TypeError | OverflowError | ParserError

text \<open>
  The \<open>DataFrame\<close> as \<open>pd.read_csv\<close> decodes it: the column labels in order, and one list of
  cells per record, as long as the list of labels.
\<close>

record frame =
  columns :: "string list"
  rows :: "pyval list list"

text \<open>The \<open>row\<close> that \<open>df.iterrows()\<close> yields: the cells of one record under their labels.\<close>

type_synonym row = "(string \<times> pyval) list"

definition frame_rows :: "frame \<Rightarrow> row list" where
  "frame_rows df = map (zip (columns df)) (rows df)"

text \<open>
  \<open>row.get(key, default)\<close>: the default when no column carries the label, the cell when one
  does, a \<open>Series\<close> of all the cells under it when several do.
\<close>

definition row_get :: "row \<Rightarrow> string \<Rightarrow> pyval \<Rightarrow> pyval" where
  "row_get row key dflt =
     (case map snd (filter (\<lambda>kv. fst kv = key) row) of
        [] \<Rightarrow> dflt
      | [v] \<Rightarrow> v
      | vs \<Rightarrow> PSeries vs)"

subsection \<open>Timestamps (lines 49 to 52)\<close>

text \<open>
  \<open>pd.to_datetime(column, errors='coerce')\<close> on one cell. The parser belongs to pandas and is
  a parameter: it gives the timestamp a cell reads as, or nothing. In the mode \<open>coerce\<close> a
  cell that does not parse becomes \<open>NaT\<close>.
\<close>

definition to_datetime_coerce :: "(pyval \<Rightarrow> timestamp option) \<Rightarrow> pyval \<Rightarrow> pyval" where
  "to_datetime_coerce parse v = (case parse v of Some t \<Rightarrow> PTime t | None \<Rightarrow> PNaT)"

text \<open>
  \<^verbatim>\<open>if name in df.columns: df[name] = pd.to_datetime(df[name], errors='coerce')\<close>
  When several columns carry the label, \<open>df[name]\<close> is a \<open>DataFrame\<close> and \<open>pd.to_datetime\<close>
  raises \<open>ValueError\<close>, whatever \<open>errors\<close> says.
\<close>

definition convert_column :: "(pyval \<Rightarrow> timestamp option) \<Rightarrow> string \<Rightarrow> frame \<Rightarrow> pyerr + frame" where
  "convert_column parse name df =
     (if name \<notin> set (columns df) then Inr df
      else if 1 < count_list (columns df) name then Inl ValueError
      else Inr (df\<lparr>rows :=
             map (\<lambda>cells. map (\<lambda>cv. if fst cv = name then to_datetime_coerce parse (snd cv) else snd cv)
                               (zip (columns df) cells))
                 (rows df)\<rparr>))"

text \<open>Step 2 of the script: the labels are cleaned, then \<open>start\<close> and \<open>end\<close> are converted.\<close>

definition clean_frame :: "(pyval \<Rightarrow> timestamp option) \<Rightarrow> frame \<Rightarrow> pyerr + frame" where
  "clean_frame parse df =
     (case convert_column parse ''start'' (df\<lparr>columns := map clean_name (columns df)\<rparr>) of
        Inl e \<Rightarrow> Inl e
      | Inr df1 \<Rightarrow> convert_column parse ''end'' df1)"

section \<open>Column Resolver (lines 81 to 88)\<close>

datatype role =
  Age_group | Vaccination | Visits | Exercise | Water | Sleep | Insurance | Gender

text \<open>The condition of each list comprehension, on one column label \<open>c\<close>.\<close>

fun matches :: "role \<Rightarrow> string \<Rightarrow> bool" where
  "matches Age_group c = (contains ''age'' (lower c) \<and> contains ''group'' (lower c))"
| "matches Vaccination c = contains ''vaccin'' (lower c)"
| "matches Visits c = (contains ''healthcare'' (lower c) \<or> contains ''visit'' (lower c))"
| "matches Exercise c = (contains ''exercise'' (lower c) \<or> contains ''physical'' (lower c))"
| "matches Water c = (contains ''water'' (lower c) \<or> contains ''drinking'' (lower c))"
| "matches Sleep c = (contains ''sleep'' (lower c) \<or> contains ''hour'' (lower c))"
| "matches Insurance c = (contains ''insurance'' (lower c) \<or> contains ''coverage'' (lower c))"
| "matches Gender c = contains ''gender'' (lower c)"

text \<open>The eight lists the script keeps, each holding the matching labels in column order.\<close>

record field_mapping =
  age_col :: "string list"
  vacc_col :: "string list"
  visit_col :: "string list"
  exercise_col :: "string list"
  water_col :: "string list"
  sleep_col :: "string list"
  insurance_col :: "string list"
  gender_col :: "string list"

definition find_columns :: "string list \<Rightarrow> field_mapping" where
  "find_columns cols =
     \<lparr>age_col = filter (matches Age_group) cols,
      vacc_col = filter (matches Vaccination) cols,
      visit_col = filter (matches Visits) cols,
      exercise_col = filter (matches Exercise) cols,
      water_col = filter (matches Water) cols,
      sleep_col = filter (matches Sleep) cols,
      insurance_col = filter (matches Insurance) cols,
      gender_col = filter (matches Gender) cols\<rparr>"

fun role_col :: "role \<Rightarrow> field_mapping \<Rightarrow> string list" where
  "role_col Age_group m = age_col m"
| "role_col Vaccination m = vacc_col m"
| "role_col Visits m = visit_col m"
| "role_col Exercise m = exercise_col m"
| "role_col Water m = water_col m"
| "role_col Sleep m = sleep_col m"
| "role_col Insurance m = insurance_col m"
| "role_col Gender m = gender_col m"

text \<open>The label a role is bound to: \<open>col[0]\<close> when the list is not empty.\<close>

definition bound_to :: "role \<Rightarrow> field_mapping \<Rightarrow> string option" where
  "bound_to r m = (case role_col r m of [] \<Rightarrow> None | c # _ \<Rightarrow> Some c)"

section \<open>Row Loader: one row (lines 127 to 158)\<close>

text \<open>\<open>row.get(col[0], default) if col else default\<close>\<close>

definition pick :: "string list \<Rightarrow> row \<Rightarrow> pyval \<Rightarrow> pyval" where
  "pick col row dflt = (case col of [] \<Rightarrow> dflt | c # _ \<Rightarrow> row_get row c dflt)"

text \<open>
  \<open>pd.notna(v)\<close> used as a condition: false on \<open>None\<close>, \<open>NaN\<close> and \<open>NaT\<close>, true on every other
  scalar. On a \<open>Series\<close> it returns a \<open>Series\<close>, whose truth value raises \<open>ValueError\<close>.
\<close>

fun notna :: "pyval \<Rightarrow> pyerr + bool" where
  "notna PNone = Inr False"
| "notna (PFloat NaN) = Inr False"
| "notna PNaT = Inr False"
| "notna (PSeries vs) = Inl ValueError"
| "notna v = Inr True"

text \<open>The number of binary digits of a positive integer.\<close>

function bit_length :: "int \<Rightarrow> nat" where
  "bit_length n = (if n \<le> 0 then 0 else Suc (bit_length (n div 2)))"
  by pat_completeness auto
termination
  by (relation "measure nat") auto

text \<open>
  The double nearest to an integer of 64 bits: exact up to 53 significant bits, beyond
  them rounded to the nearest multiple of the last kept bit, a tie going to the even one.
\<close>

definition round_double :: "int \<Rightarrow> int" where
  "round_double i =
     (let m = \<bar>i\<bar>; e = bit_length m
      in if e \<le> 53 then i
         else let u = 2 ^ (e - 53); q = m div u; r = m mod u;
                  q' = (if u < 2 * r \<or> (2 * r = u \<and> odd q) then q + 1 else q)
              in sgn i * (q' * u))"

text \<open>
  \<open>float(v)\<close>. Reading a \<open>str\<close> is Python's own parser, a parameter here: it gives the float
  a text denotes, or nothing when \<open>float\<close> raises \<open>ValueError\<close>.
\<close>

fun py_float :: "(string \<Rightarrow> pyfloat option) \<Rightarrow> pyval \<Rightarrow> pyerr + pyfloat" where
  "py_float parse (PStr s) = (case parse s of None \<Rightarrow> Inl ValueError | Some f \<Rightarrow> Inr f)"
| "py_float parse (PInt i) = Inr (Finite (of_int (round_double i)))"
| "py_float parse (PFloat f) = Inr f"
| "py_float parse (PBool b) = Inr (Finite (if b then 1 else 0))"
| "py_float parse v = Inl TypeError"

text \<open>\<open>int(f)\<close> on a float: the fraction is cut off, towards zero.\<close>

definition cut_fraction :: "rat \<Rightarrow> int" where
  "cut_fraction q = (if 0 \<le> q then \<lfloor>q\<rfloor> else \<lceil>q\<rceil>)"

fun py_int :: "pyfloat \<Rightarrow> pyerr + int" where
  "py_int (Finite q) = Inr (cut_fraction q)"
| "py_int NaN = Inl ValueError"
| "py_int f = Inl OverflowError"

text \<open>
  Lines 137 to 140:
  \<^verbatim>\<open>try: visit_val = int(float(visit_val)) if pd.notna(visit_val) else 0\<close>
  \<^verbatim>\<open>except: visit_val = 0\<close>
\<close>

definition visit_try :: "(string \<Rightarrow> pyfloat option) \<Rightarrow> pyval \<Rightarrow> pyerr + pyval" where
  "visit_try parse v =
     (case notna v of
        Inl e \<Rightarrow> Inl e
      | Inr False \<Rightarrow> Inr (PInt 0)
      | Inr True \<Rightarrow>
          (case py_float parse v of
             Inl e \<Rightarrow> Inl e
           | Inr f \<Rightarrow> (case py_int f of Inl e \<Rightarrow> Inl e | Inr n \<Rightarrow> Inr (PInt n))))"

definition coerce_visit :: "(string \<Rightarrow> pyfloat option) \<Rightarrow> pyval \<Rightarrow> pyval" where
  "coerce_visit parse v = (case visit_try parse v of Inl e \<Rightarrow> PInt 0 | Inr n \<Rightarrow> n)"

text \<open>
  Lines 142 to 145:
  \<^verbatim>\<open>try: sleep_val = float(sleep_val) if pd.notna(sleep_val) else 0\<close>
  \<^verbatim>\<open>except: sleep_val = 0\<close>
\<close>

definition sleep_try :: "(string \<Rightarrow> pyfloat option) \<Rightarrow> pyval \<Rightarrow> pyerr + pyval" where
  "sleep_try parse v =
     (case notna v of
        Inl e \<Rightarrow> Inl e
      | Inr False \<Rightarrow> Inr (PInt 0)
      | Inr True \<Rightarrow> (case py_float parse v of Inl e \<Rightarrow> Inl e | Inr f \<Rightarrow> Inr (PFloat f)))"

definition coerce_sleep :: "(string \<Rightarrow> pyfloat option) \<Rightarrow> pyval \<Rightarrow> pyval" where
  "coerce_sleep parse v = (case sleep_try parse v of Inl e \<Rightarrow> PInt 0 | Inr x \<Rightarrow> x)"

text \<open>The ten parameters of the insert, in the order of the query's columns.\<close>

record target_row =
  submission_start :: pyval
  submission_end :: pyval
  age_group :: pyval
  gender :: pyval
  vaccination_status :: pyval
  healthcare_visits_count :: pyval
  exercise_frequency :: pyval
  water_source :: pyval
  sleep_hours :: pyval
  health_insurance :: pyval

definition make_row :: "(string \<Rightarrow> pyfloat option) \<Rightarrow> field_mapping \<Rightarrow> row \<Rightarrow> target_row" where
  "make_row parse m row =
     \<lparr>submission_start = row_get row ''start'' PNone,
      submission_end = row_get row ''end'' PNone,
      age_group = pick (age_col m) row PNone,
      gender = pick (gender_col m) row PNone,
      vaccination_status = pick (vacc_col m) row PNone,
      healthcare_visits_count = coerce_visit parse (pick (visit_col m) row (PInt 0)),
      exercise_frequency = pick (exercise_col m) row PNone,
      water_source = pick (water_col m) row PNone,
      sleep_hours = coerce_sleep parse (pick (sleep_col m) row (PInt 0)),
      health_insurance = pick (insurance_col m) row PNone\<rparr>"

text \<open>The parameter a role contributes to the insert.\<close>

fun role_value :: "role \<Rightarrow> target_row \<Rightarrow> pyval" where
  "role_value Age_group t = age_group t"
| "role_value Vaccination t = vaccination_status t"
| "role_value Visits t = healthcare_visits_count t"
| "role_value Exercise t = exercise_frequency t"
| "role_value Water t = water_source t"
| "role_value Sleep t = sleep_hours t"
| "role_value Insurance t = health_insurance t"
| "role_value Gender t = gender t"

section \<open>The relational store, as the script uses it\<close>

text \<open>The five statements the script sends through \<open>cur.execute\<close>.\<close>

datatype stmt =
    Create_schema string
  | Drop_table string string
  | Create_table string string
  | Insert_row string string target_row
  | Select_count string string

text \<open>What the script calls on the connection and its cursor, in the order of the calls.\<close>

datatype call = Connect | Execute stmt | Commit | Fetchone | Close

text \<open>
  The store is psycopg2 with the server behind it, not code of the script, so it is a
  parameter: \<open>'d\<close> is a database between two runs, \<open>'c\<close> an open connection. A call returns
  the connection it leaves and, when it raises \<open>psycopg2.Error\<close>, the message. \<open>lost\<close> is the
  database left by a connection that the script never closes.
\<close>

record ('d, 'c) store =
  connect :: "'d \<Rightarrow> string + 'c"
  execute :: "'c \<Rightarrow> stmt \<Rightarrow> string option \<times> 'c"
  commit :: "'c \<Rightarrow> string option \<times> 'c"
  fetchone :: "'c \<Rightarrow> nat"
  close :: "'c \<Rightarrow> 'd"
  lost :: "'c \<Rightarrow> 'd"

definition schema_name :: string where
  "schema_name = ''Ribka-Blossom-academy-capstone-project''"

definition table_name :: string where
  "table_name = ''public_health_data''"

section \<open>The run\<close>

text \<open>Every \<open>print\<close> of the script, with the values it formats.\<close>

datatype line =
    Fetching
  | Fetched_ok
  | Fetched_records nat
  | Columns_found nat
  | Processing
  | Cleaned nat
  | Connecting
  | Connected
  | Schema_ready string
  | Table_created string
  | Inserting nat
  | Progress nat nat
  | Row_warning nat string
  | Inserted_ok nat
  | Failed_count nat
  | Total_records nat
  | Connection_closed
  | Rule
  | Pipeline_completed
  | Postgres_error string
  | Fetch_failed int
  | Please_check
  | Check_credentials
  | Check_url
  | Check_internet

text \<open>The state of the \<open>try\<close> block: the connection, the output so far, the calls so far,
  and the two counters of the loop.\<close>

record 'c session =
  conn :: 'c
  printed :: "line list"
  calls :: "call list"
  records_inserted :: nat
  errors_count :: nat

definition say :: "line \<Rightarrow> 'c session \<Rightarrow> 'c session" where
  "say l s = s\<lparr>printed := printed s @ [l]\<rparr>"

definition exec :: "('d, 'c) store \<Rightarrow> stmt \<Rightarrow> 'c session \<Rightarrow> string option \<times> 'c session" where
  "exec st q s =
     (case execute st (conn s) q of
        (r, c) \<Rightarrow> (r, s\<lparr>conn := c, calls := calls s @ [Execute q]\<rparr>))"

subsection \<open>Load Target Manager (lines 74 to 107)\<close>

definition prepare_table :: "('d, 'c) store \<Rightarrow> 'c session \<Rightarrow> (string \<times> 'c session) + 'c session" where
  "prepare_table st s =
     (case exec st (Create_schema schema_name) s of
        (Some e, s1) \<Rightarrow> Inl (e, s1)
      | (None, s1) \<Rightarrow>
          (case exec st (Drop_table schema_name table_name) (say (Schema_ready schema_name) s1) of
             (Some e, s2) \<Rightarrow> Inl (e, s2)
           | (None, s2) \<Rightarrow>
               (case exec st (Create_table schema_name table_name) s2 of
                  (Some e, s3) \<Rightarrow> Inl (e, s3)
                | (None, s3) \<Rightarrow> Inr (say (Table_created table_name) s3))))"

subsection \<open>Row Loader: the loop (lines 124 to 168)\<close>

text \<open>
  One turn of the loop. Nothing before \<open>cur.execute\<close> can raise: \<open>row.get\<close> does not, and the
  two conversions catch what they raise. So the turn ends in the \<open>except\<close> branch exactly
  when the insert raises.
\<close>

definition insert_row ::
  "('d, 'c) store \<Rightarrow> (string \<Rightarrow> pyfloat option) \<Rightarrow> field_mapping \<Rightarrow> nat \<Rightarrow> 'c session \<Rightarrow> nat \<times> row
     \<Rightarrow> 'c session" where
  "insert_row st parse m len s ir =
     (case exec st (Insert_row schema_name table_name (make_row parse m (snd ir))) s of
        (None, s1) \<Rightarrow>
          (let n = records_inserted s1 + 1
           in s1\<lparr>records_inserted := n,
                 printed := printed s1 @ (if n mod 10 = 0 then [Progress n len] else [])\<rparr>)
      | (Some e, s1) \<Rightarrow>
          (let k = errors_count s1 + 1
           in s1\<lparr>errors_count := k,
                 printed := printed s1 @ (if k \<le> 3 then [Row_warning (fst ir) e] else [])\<rparr>))"

fun insert_rows ::
  "('d, 'c) store \<Rightarrow> (string \<Rightarrow> pyfloat option) \<Rightarrow> field_mapping \<Rightarrow> nat \<Rightarrow> 'c session
     \<Rightarrow> (nat \<times> row) list \<Rightarrow> 'c session" where
  "insert_rows st parse m len s [] = s"
| "insert_rows st parse m len s (ir # irs) =
     insert_rows st parse m len (insert_row st parse m len s ir) irs"

text \<open>
  What each insert of the loop answered, in the order of the rows: nothing when it went
  through, the message when it raised.
\<close>

fun insert_answers ::
  "('d, 'c) store \<Rightarrow> (string \<Rightarrow> pyfloat option) \<Rightarrow> field_mapping \<Rightarrow> nat \<Rightarrow> 'c session
     \<Rightarrow> (nat \<times> row) list \<Rightarrow> string option list" where
  "insert_answers st parse m len s [] = []"
| "insert_answers st parse m len s (ir # irs) =
     fst (exec st (Insert_row schema_name table_name (make_row parse m (snd ir))) s)
       # insert_answers st parse m len (insert_row st parse m len s ir) irs"

text \<open>
  Lines 81 to 88 and 119 to 168: the mapping is found once, the two counters start at zero
  in the session the loop receives, and the loop takes the rows in the order of the frame,
  each with its index.
\<close>

definition run_loop ::
  "('d, 'c) store \<Rightarrow> (string \<Rightarrow> pyfloat option) \<Rightarrow> frame \<Rightarrow> 'c session \<Rightarrow> 'c session" where
  "run_loop st parse df s =
     insert_rows st parse (find_columns (columns df)) (length (rows df))
       (say (Inserting (length (rows df))) s) (enumerate 0 (frame_rows df))"

definition loop_answers ::
  "('d, 'c) store \<Rightarrow> (string \<Rightarrow> pyfloat option) \<Rightarrow> frame \<Rightarrow> 'c session \<Rightarrow> string option list" where
  "loop_answers st parse df s =
     insert_answers st parse (find_columns (columns df)) (length (rows df))
       (say (Inserting (length (rows df))) s) (enumerate 0 (frame_rows df))"

text \<open>Lines 170 to 174: the one commit after the loop, then the summary.\<close>

definition load ::
  "('d, 'c) store \<Rightarrow> (string \<Rightarrow> pyfloat option) \<Rightarrow> frame \<Rightarrow> 'c session
     \<Rightarrow> (string \<times> 'c session) + 'c session" where
  "load st parse df s =
     (let s1 = run_loop st parse df s
      in case commit st (conn s1) of
           (Some e, c) \<Rightarrow> Inl (e, s1\<lparr>conn := c, calls := calls s1 @ [Commit]\<rparr>)
         | (None, c) \<Rightarrow>
             Inr (s1\<lparr>conn := c, calls := calls s1 @ [Commit],
                     printed := printed s1 @ Inserted_ok (records_inserted s1)
                       # (if 0 < errors_count s1 then [Failed_count (errors_count s1)] else [])\<rparr>))"

text \<open>The warnings of line 168 among the printed lines.\<close>

fun is_warning :: "line \<Rightarrow> bool" where
  "is_warning (Row_warning i e) = True"
| "is_warning l = False"

text \<open>The rows whose insert raised, each with its index and the message, in order.\<close>

fun failures :: "(nat \<times> row) list \<Rightarrow> string option list \<Rightarrow> (nat \<times> string) list" where
  "failures (ir # irs) (Some e # as) = (fst ir, e) # failures irs as"
| "failures (ir # irs) (None # as) = failures irs as"
| "failures irs as = []"

text \<open>Lines 177 to 188: the count is read back, the connection closed.\<close>

definition verify :: "('d, 'c) store \<Rightarrow> 'c session \<Rightarrow> (string \<times> 'c session) + 'c session" where
  "verify st s =
     (case exec st (Select_count schema_name table_name) s of
        (Some e, s1) \<Rightarrow> Inl (e, s1)
      | (None, s1) \<Rightarrow>
          Inr (s1\<lparr>calls := calls s1 @ [Fetchone, Close],
                  printed := printed s1 @ [Total_records (fetchone st (conn s1)), Connection_closed,
                    Rule, Pipeline_completed, Rule]\<rparr>))"

text \<open>How a run ends: the script's last line is reached, the fetch is refused, the \<open>try\<close>
  block catches an error of the store, or an exception is caught by nothing.\<close>

datatype outcome = Succeeded | Fetch_refused | Store_error string | Uncaught pyerr

record 'd result =
  outcome :: outcome
  console :: "line list"
  store_calls :: "call list"
  database :: 'd
  inserted :: nat
  failed :: nat

definition caught :: "('d, 'c) store \<Rightarrow> string \<times> 'c session \<Rightarrow> 'd result" where
  "caught st es =
     \<lparr>outcome = Store_error (fst es),
      console = printed (snd es) @ [Postgres_error (fst es)],
      store_calls = calls (snd es),
      database = lost st (conn (snd es)),
      inserted = records_inserted (snd es),
      failed = errors_count (snd es)\<rparr>"

text \<open>Step 3, the \<open>try\<close> block of lines 60 to 193.\<close>

definition upload ::
  "('d, 'c) store \<Rightarrow> (string \<Rightarrow> pyfloat option) \<Rightarrow> frame \<Rightarrow> 'd \<Rightarrow> line list \<Rightarrow> 'd result" where
  "upload st parse df d out =
     (case connect st d of
        Inl e \<Rightarrow>
          \<lparr>outcome = Store_error e, console = out @ [Postgres_error e], store_calls = [Connect],
           database = d, inserted = 0, failed = 0\<rparr>
      | Inr c \<Rightarrow>
          (case prepare_table st
                  \<lparr>conn = c, printed = out @ [Connected], calls = [Connect],
                   records_inserted = 0, errors_count = 0\<rparr> of
             Inl es \<Rightarrow> caught st es
           | Inr s1 \<Rightarrow>
               (case load st parse df s1 of
                  Inl es \<Rightarrow> caught st es
                | Inr s2 \<Rightarrow>
                    (case verify st s2 of
                       Inl es \<Rightarrow> caught st es
                     | Inr s3 \<Rightarrow>
                         \<lparr>outcome = Succeeded, console = printed s3, store_calls = calls s3,
                          database = close st (conn s3), inserted = records_inserted s3,
                          failed = errors_count s3\<rparr>))))"

text \<open>
  The collaborators that are not the script's: the decoder of line 37, the timestamp parser
  of lines 50 and 52, and \<open>float\<close> on a \<open>str\<close>.
\<close>

record library =
  read_csv :: "string \<Rightarrow> pyerr + frame"
  to_datetime :: "pyval \<Rightarrow> timestamp option"
  parse_float :: "string \<Rightarrow> pyfloat option"

text \<open>The answer of the one \<open>requests.get\<close> of line 30.\<close>

record response =
  status_code :: int
  body :: string

definition crashed :: "pyerr \<Rightarrow> line list \<Rightarrow> 'd \<Rightarrow> 'd result" where
  "crashed e out d =
     \<lparr>outcome = Uncaught e, console = out, store_calls = [], database = d, inserted = 0, failed = 0\<rparr>"

text \<open>The whole script, lines 29 to 200.\<close>

definition run :: "('d, 'c) store \<Rightarrow> library \<Rightarrow> response \<Rightarrow> 'd \<Rightarrow> 'd result" where
  "run st lib resp d =
     (if status_code resp = 200 then
        (case read_csv lib (body resp) of
           Inl e \<Rightarrow> crashed e [Fetching, Fetched_ok] d
         | Inr df \<Rightarrow>
             (let out = [Fetching, Fetched_ok, Fetched_records (length (rows df)),
                         Columns_found (length (columns df)), Processing]
              in case clean_frame (to_datetime lib) df of
                   Inl e \<Rightarrow> crashed e out d
                 | Inr df1 \<Rightarrow>
                     upload st (parse_float lib) df1 d
                       (out @ [Cleaned (length (rows df1)), Connecting])))
      else
        \<lparr>outcome = Fetch_refused,
         console = [Fetching, Fetch_failed (status_code resp), Please_check, Check_credentials,
                   Check_url, Check_internet],
         store_calls = [], database = d, inserted = 0, failed = 0\<rparr>)"

section \<open>The store of the script: PostgreSQL through psycopg2\<close>

text \<open>
  The script opens one connection (line 62), never sets autocommit, and calls neither
  \<open>rollback\<close> nor a savepoint. So everything from the first \<open>cur.execute\<close> of line 74 to the
  \<open>conn.commit()\<close> of line 171 is one transaction, the three statements that prepare the
  table included. In such a transaction the server refuses every statement that follows a
  failed one, and the commit of a failed transaction is a rollback that raises nothing.

  The database is a set of schemas and, for every table, its rows in the order of their
  insertion. A connection holds the database as committed, the database as the open
  transaction sees it, whether the transaction has failed, and the last count read.
\<close>

record db =
  schemas :: "string set"
  tables :: "string \<times> string \<rightharpoonup> target_row list"

record connection =
  durable :: db
  working :: db
  aborted :: bool
  fetched :: nat

text \<open>
  Why an insert can fail is a parameter: psycopg2 cannot adapt a parameter (a \<open>Series\<close>), and
  then sends nothing; or the server refuses the row (a value out of the range of its column,
  a text that is no timestamp, a constraint).
\<close>

datatype refusal = Unadaptable string | Refused string

text \<open>What a statement does on the server, to the database the transaction sees.\<close>

fun apply_stmt :: "(target_row \<Rightarrow> refusal option) \<Rightarrow> db \<Rightarrow> stmt \<Rightarrow> string + db" where
  "apply_stmt refuse w (Create_schema s) = Inr (w\<lparr>schemas := insert s (schemas w)\<rparr>)"
| "apply_stmt refuse w (Drop_table s t) = Inr (w\<lparr>tables := (tables w)((s, t) := None)\<rparr>)"
| "apply_stmt refuse w (Create_table s t) =
     (if s \<notin> schemas w then Inl ''schema does not exist''
      else if tables w (s, t) \<noteq> None then Inl ''relation already exists''
      else Inr (w\<lparr>tables := (tables w)((s, t) \<mapsto> [])\<rparr>))"
| "apply_stmt refuse w (Insert_row s t r) =
     (case tables w (s, t) of
        None \<Rightarrow> Inl ''relation does not exist''
      | Some rs \<Rightarrow>
          (case refuse r of
             Some (Refused e) \<Rightarrow> Inl e
           | _ \<Rightarrow> Inr (w\<lparr>tables := (tables w)((s, t) \<mapsto> rs @ [r])\<rparr>)))"
| "apply_stmt refuse w (Select_count s t) =
     (case tables w (s, t) of None \<Rightarrow> Inl ''relation does not exist'' | Some rs \<Rightarrow> Inr w)"

fun count_of :: "db \<Rightarrow> stmt \<Rightarrow> nat \<Rightarrow> nat" where
  "count_of w (Select_count s t) n = (case tables w (s, t) of None \<Rightarrow> n | Some rs \<Rightarrow> length rs)"
| "count_of w q n = n"

text \<open>The error psycopg2 raises before it sends anything.\<close>

fun unadaptable :: "(target_row \<Rightarrow> refusal option) \<Rightarrow> stmt \<Rightarrow> string option" where
  "unadaptable refuse (Insert_row s t r) =
     (case refuse r of Some (Unadaptable e) \<Rightarrow> Some e | _ \<Rightarrow> None)"
| "unadaptable refuse q = None"

text \<open>
  \<open>cur.execute\<close>: a statement that cannot be adapted changes nothing; in a failed transaction
  every statement is refused; a statement the server refuses makes the transaction fail.
\<close>

definition sql_execute ::
  "(target_row \<Rightarrow> refusal option) \<Rightarrow> connection \<Rightarrow> stmt \<Rightarrow> string option \<times> connection" where
  "sql_execute refuse c q =
     (case unadaptable refuse q of
        Some e \<Rightarrow> (Some e, c)
      | None \<Rightarrow>
          if aborted c then (Some ''current transaction is aborted'', c)
          else (case apply_stmt refuse (working c) q of
                  Inl e \<Rightarrow> (Some e, c\<lparr>aborted := True\<rparr>)
                | Inr w \<Rightarrow> (None, c\<lparr>working := w, fetched := count_of w q (fetched c)\<rparr>)))"

text \<open>
  \<open>conn.commit()\<close>: the transaction reaches the database, unless it has failed: then its
  changes are dropped. Either way nothing is raised and the next statement opens a new
  transaction.
\<close>

definition sql_commit :: "connection \<Rightarrow> string option \<times> connection" where
  "sql_commit c =
     (if aborted c then (None, c\<lparr>working := durable c, aborted := False\<rparr>)
      else (None, c\<lparr>durable := working c\<rparr>))"

text \<open>A connection that is closed, or lost, leaves the database as last committed.\<close>

definition sql_store :: "(target_row \<Rightarrow> refusal option) \<Rightarrow> (db, connection) store" where
  "sql_store refuse =
     \<lparr>connect = (\<lambda>d. Inr \<lparr>durable = d, working = d, aborted = False, fetched = 0\<rparr>),
      execute = sql_execute refuse,
      commit = sql_commit,
      fetchone = fetched,
      close = durable,
      lost = durable\<rparr>"

definition empty_db :: db where
  "empty_db = \<lparr>schemas = {}, tables = Map.empty\<rparr>"

text \<open>
  The column of line 99 as the server checks it: an \<open>INTEGER\<close> holds 32 bits. This value of
  the parameter knows no other refusal.
\<close>

definition integer_range :: "target_row \<Rightarrow> refusal option" where
  "integer_range r =
     (case healthcare_visits_count r of
        PInt n \<Rightarrow>
          if n < - 2147483648 \<or> 2147483647 < n then Some (Refused ''integer out of range'')
          else None
      | _ \<Rightarrow> None)"

section \<open>Sample inputs\<close>

text \<open>A reader of numbers that knows four texts, as \<open>float\<close> reads them.\<close>

definition demo_float :: "string \<Rightarrow> pyfloat option" where
  "demo_float s =
     (if s = ''2.9'' then Some (Finite (29 / 10))
      else if s = ''-2.9'' then Some (Finite (- 29 / 10))
      else if s = ''3'' then Some (Finite 3)
      else if s = ''inf'' then Some PosInf
      else None)"

text \<open>
  The table of the specification's end-to-end scenario, as decoded: the header
  \<open>Start;End;Age Group;Gender?;Vaccination Status\<close> and two records, the second with an
  empty Age Group.
\<close>

definition demo_frame :: frame where
  "demo_frame =
     \<lparr>columns = [''Start'', ''End'', ''Age Group'', ''Gender?'', ''Vaccination Status''],
      rows = [[PStr ''2024-01-05 10:00'', PStr ''2024-01-05 10:07'', PStr ''18-25'', PStr ''F'', PStr ''yes''],
              [PStr ''2024-01-06 09:30'', PStr ''2024-01-06 09:41'', PFloat NaN, PStr ''M'', PStr ''no'']]\<rparr>"

definition demo_clean :: frame where
  "demo_clean =
     \<lparr>columns = [''Start'', ''End'', ''Age_Group'', ''Gender'', ''Vaccination_Status''],
      rows = [[PStr ''2024-01-05 10:00'', PStr ''2024-01-05 10:07'', PStr ''18-25'', PStr ''F'', PStr ''yes''],
              [PStr ''2024-01-06 09:30'', PStr ''2024-01-06 09:41'', PFloat NaN, PStr ''M'', PStr ''no'']]\<rparr>"

text \<open>
  A batch of three records under canonical names, the visit counts decoded as floats, one
  of them missing. The last count is beyond the range of an \<open>INTEGER\<close> column.
\<close>

definition demo_batch :: frame where
  "demo_batch =
     \<lparr>columns = [''age_group'', ''visits''],
      rows = [[PStr ''18-25'', PFloat (Finite 3)],
              [PStr ''26-35'', PFloat NaN],
              [PStr ''36-45'', PFloat (Finite 3000000000)]]\<rparr>"

text \<open>
  A table with the two timestamp columns, one value of which is no date, and a parser that
  reads the one text that is a date.
\<close>

definition demo_times :: frame where
  "demo_times =
     \<lparr>columns = [''start'', ''end'', ''Age Group''],
      rows = [[PStr ''2024-01-05 10:00'', PStr ''not a date'', PStr ''18-25'']]\<rparr>"

definition demo_ts :: "pyval \<Rightarrow> timestamp option" where
  "demo_ts v = (if v = PStr ''2024-01-05 10:00'' then Some 1704448800 else None)"

text \<open>
  A table with two columns that both clean to \<open>start\<close>: the second label has a space in
  front, which \<open>read_csv\<close> keeps.
\<close>

definition demo_twice :: frame where
  "demo_twice =
     \<lparr>columns = [''start'', '' start'', ''end''],
      rows = [[PStr ''2024-01-05 10:00'', PStr ''2024-01-05 10:01'', PStr ''2024-01-05 10:07'']]\<rparr>"

text \<open>A decoder that knows three bodies, and a timestamp parser that reads nothing.\<close>

definition demo_library :: library where
  "demo_library =
     \<lparr>read_csv = (\<lambda>s. if s = ''batch'' then Inr demo_batch
                       else if s = ''twice'' then Inr demo_twice else Inr demo_frame),
      to_datetime = (\<lambda>v. None), parse_float = demo_float\<rparr>"

text \<open>
  Two runs in a row on the empty database: the first loads the table of the scenario, the
  second the batch. A third run loads the batch on the empty database.
\<close>

definition first_run :: "db result" where
  "first_run =
     run (sql_store integer_range) demo_library \<lparr>status_code = 200, body = ''first''\<rparr> empty_db"

definition second_run :: "db result" where
  "second_run =
     run (sql_store integer_range) demo_library \<lparr>status_code = 200, body = ''batch''\<rparr>
       (database first_run)"

definition batch_run :: "db result" where
  "batch_run =
     run (sql_store integer_range) demo_library \<lparr>status_code = 200, body = ''batch''\<rparr> empty_db"

section \<open>Properties of the Schema Normalizer\<close>

lemma replace_from_single:
  "replace_from [a] new s = concat (map (\<lambda>c. if c = a then new else [c]) s)"
  by (induction s) auto

lemma replace_single:
  "replace [a] new s = concat (map (\<lambda>c. if c = a then new else [c]) s)"
  by (simp add: replace_def replace_from_single)

lemma substitutions_char_wise:
  "replace ''&'' ''and'' (replace ''-'' ''_'' (replace ''?'' '''' (replace ''/'' ''_''
     (replace '' '' ''_'' s)))) = concat (map subst_char s)"
  by (induction s) (simp_all add: replace_single subst_char_def)

lemma clean_name_char_wise: "clean_name col = concat (map subst_char (strip col))"
  by (simp add: clean_name_def substitutions_char_wise)

lemma subst_char_plain: "\<not> special c \<Longrightarrow> subst_char c = [c]"
  by (simp add: special_def subst_char_def)

lemma subst_char_no_special: "x \<in> set (subst_char c) \<Longrightarrow> \<not> special x"
  by (auto simp: special_def subst_char_def split: if_splits)

lemma substituted_plain: "\<forall>c\<in>set s. \<not> special c \<Longrightarrow> concat (map subst_char s) = s"
  by (induction s) (simp_all add: subst_char_plain)

lemma substituted_no_special: "x \<in> set (concat (map subst_char s)) \<Longrightarrow> \<not> special x"
  by (auto dest: subst_char_no_special)

lemma set_strip: "set (strip s) \<subseteq> set s"
proof -
  have "set (strip s) = set (dropWhile is_space (rev (dropWhile is_space s)))"
    by (simp add: strip_def)
  also have "\<dots> \<subseteq> set (rev (dropWhile is_space s))"
    by (rule set_dropWhileD[THEN subsetI])
  also have "\<dots> \<subseteq> set s"
    by (auto dest: set_dropWhileD)
  finally show ?thesis .
qed

text \<open>A second cleaning finds nothing to substitute: all it does is trim.\<close>

lemma clean_name_twice: "clean_name (clean_name s) = strip (clean_name s)"
proof -
  have "\<forall>c\<in>set (strip (clean_name s)). \<not> special c"
    using set_strip[of "clean_name s"] substituted_no_special[of _ "strip s"]
    by (auto simp: clean_name_char_wise)
  then show ?thesis
    by (simp add: clean_name_char_wise[of "clean_name s"] substituted_plain)
qed

lemma strip_fixed:
  assumes "x = [] \<or> (\<not> is_space (hd x) \<and> \<not> is_space (last x))"
  shows "strip x = x"
proof (cases "x = []")
  case True
  then show ?thesis by (simp add: strip_def)
next
  case False
  with assms have h: "\<not> is_space (hd x)" and l: "\<not> is_space (last x)" by auto
  from False h have "dropWhile is_space x = x"
    by (cases x) simp_all
  moreover from False l have "dropWhile is_space (rev x) = rev x"
    by (simp add: dropWhile_eq_self_iff hd_rev)
  ultimately show ?thesis by (simp add: strip_def)
qed

lemma last_dropWhile_kept:
  "dropWhile P w \<noteq> [] \<Longrightarrow> last (dropWhile P w) = last w"
  by (metis last_appendR takeWhile_dropWhile_id)

lemma strip_ends:
  assumes "strip s \<noteq> []"
  shows "\<not> is_space (hd (strip s)) \<and> \<not> is_space (last (strip s))"
proof -
  define y where "y = dropWhile is_space s"
  define z where "z = dropWhile is_space (rev y)"
  have st: "strip s = rev z" by (simp add: strip_def y_def z_def)
  with assms have z: "z \<noteq> []" by simp
  then have y: "y \<noteq> []" by (auto simp: z_def)
  have "\<not> is_space (hd z)" using z unfolding z_def by (rule hd_dropWhile)
  then have l: "\<not> is_space (last (strip s))" using z by (simp add: st last_rev)
  have "last z = last (rev y)" using z unfolding z_def by (rule last_dropWhile_kept)
  also have "\<dots> = hd y" using y by (simp add: last_rev)
  finally have "hd (strip s) = hd y" using z by (simp add: st hd_rev)
  moreover have "\<not> is_space (hd y)" using y unfolding y_def by (rule hd_dropWhile)
  ultimately show ?thesis using l by simp
qed

lemma subst_char_ends:
  assumes "c \<noteq> CHR ''?''" and "\<not> is_space c"
  shows "subst_char c \<noteq> [] \<and> \<not> is_space (hd (subst_char c)) \<and> \<not> is_space (last (subst_char c))"
  using assms by (simp add: subst_char_def is_space_def)

lemma substituted_ends:
  assumes "t \<noteq> []" and "CHR ''?'' \<notin> set t"
    and "\<not> is_space (hd t)" and "\<not> is_space (last t)"
  shows "concat (map subst_char t) \<noteq> []
    \<and> \<not> is_space (hd (concat (map subst_char t)))
    \<and> \<not> is_space (last (concat (map subst_char t)))"
proof -
  from assms(1) obtain c cs where t: "t = c # cs" by (cases t) auto
  from assms(1) have t': "t = butlast t @ [last t]" by simp
  have c: "c \<noteq> CHR ''?''" "\<not> is_space c" using assms t by auto
  have l: "last t \<noteq> CHR ''?''" using assms(1,2) last_in_set by metis
  note fc = subst_char_ends[OF c]
  note fl = subst_char_ends[OF l assms(4)]
  have "concat (map subst_char t) = subst_char c @ concat (map subst_char cs)"
    by (simp add: t)
  then have h: "concat (map subst_char t) \<noteq> []" "hd (concat (map subst_char t)) = hd (subst_char c)"
    using fc by simp_all
  have "concat (map subst_char t) = concat (map subst_char (butlast t)) @ subst_char (last t)"
    by (subst t') (simp del: append_butlast_last_id)
  then have "last (concat (map subst_char t)) = last (subst_char (last t))"
    using fl by simp
  with h fc fl show ?thesis by simp
qed

text \<open>Without a question mark in the name, the cleaned name has no white space at its ends.\<close>

lemma clean_name_trimmed:
  assumes "CHR ''?'' \<notin> set s"
  shows "strip (clean_name s) = clean_name s"
proof (cases "strip s = []")
  case True
  then show ?thesis by (simp add: clean_name_char_wise strip_fixed)
next
  case False
  have "CHR ''?'' \<notin> set (strip s)" using assms set_strip by blast
  with False strip_ends[OF False]
  have "concat (map subst_char (strip s)) \<noteq> []
    \<and> \<not> is_space (hd (concat (map subst_char (strip s))))
    \<and> \<not> is_space (last (concat (map subst_char (strip s))))"
    by (intro substituted_ends) auto
  then show ?thesis
    by (simp add: clean_name_char_wise strip_fixed)
qed

text \<open>
  Claim C3. As the claim words it, the substitutions come first and the trimming second.
  The script trims first: on the name made of a space and the letter a it gives \<open>a\<close>, where
  the claim's order gives \<open>_a\<close>.
\<close>

theorem clean_name_is_not_substitute_then_trim:
  "clean_name '' a'' = ''a'' \<and> spec_clean_name '' a'' = ''_a''
     \<and> clean_name '' a'' \<noteq> spec_clean_name '' a''"
  by (simp add: clean_name_def spec_clean_name_def strip_def is_space_def replace_def)

text \<open>
  Claim C3, amended. For every raw name, the canonical name is the raw name trimmed of the
  white space at its ends and then rewritten character by character: a space, a slash or a
  hyphen becomes an underscore, a question mark disappears, an ampersand becomes \<open>and\<close>,
  every other character stays. It is a function of the raw name, defined on every string,
  and none of the five characters is left in it.
\<close>

theorem clean_name_trims_then_substitutes:
  "clean_name col = concat (map subst_char (strip col))
     \<and> list_all (\<lambda>c. \<not> special c) (clean_name col)"
proof -
  have "\<forall>x\<in>set (clean_name col). \<not> special x"
    using substituted_no_special[of _ "strip col"] by (simp add: clean_name_char_wise)
  then show ?thesis
    by (simp add: clean_name_char_wise list_all_iff)
qed

text \<open>
  Claim C9. As stated, cleaning twice is cleaning once. On the name made of a question mark,
  a TAB and the letter a, the first cleaning leaves the TAB in front (the question mark hid
  it from \<open>strip\<close>) and the second removes it.
\<close>

theorem clean_name_not_idempotent:
  "clean_name [CHR ''?'', CHR 0x09, CHR ''a''] = [CHR 0x09, CHR ''a'']
     \<and> clean_name (clean_name [CHR ''?'', CHR 0x09, CHR ''a'']) = ''a''
     \<and> clean_name (clean_name [CHR ''?'', CHR 0x09, CHR ''a''])
         \<noteq> clean_name [CHR ''?'', CHR 0x09, CHR ''a'']"
  by (simp add: clean_name_def strip_def is_space_def replace_def)

text \<open>
  Claim C9, amended. Cleaning a cleaned name only trims it, so cleaning twice is cleaning
  once exactly when the cleaned name has no white space at its ends; that is so for every
  raw name without a question mark. Equal names always have equal cleaned names.
\<close>

theorem clean_name_idempotent_when_trimmed:
  "clean_name (clean_name s) = strip (clean_name s)
     \<and> ((clean_name (clean_name s) = clean_name s) = (strip (clean_name s) = clean_name s))
     \<and> (CHR ''?'' \<notin> set s \<longrightarrow> clean_name (clean_name s) = clean_name s)
     \<and> (s = s' \<longrightarrow> clean_name s = clean_name s')"
  by (simp add: clean_name_twice clean_name_trimmed)

theorem clean_name_idempotent_when_trimmed_witness:
  "clean_name (clean_name ''  Health-care visits / year  '') = ''Health_care_visits___year''
     \<and> clean_name ''  Health-care visits / year  '' = ''Health_care_visits___year''"
proof -
  have q: "CHR ''?'' \<notin> set ''  Health-care visits / year  ''" by simp
  have one: "clean_name ''  Health-care visits / year  '' = ''Health_care_visits___year''"
    by (simp add: clean_name_def strip_def is_space_def replace_def)
  have "clean_name (clean_name ''  Health-care visits / year  '')
      = clean_name ''  Health-care visits / year  ''"
    using clean_name_idempotent_when_trimmed[of "''  Health-care visits / year  ''"] q by blast
  with one
  show ?thesis by simp
qed

section \<open>Properties of the Column Resolver\<close>

lemma role_col_find: "role_col r (find_columns cols) = filter (matches r) cols"
  by (cases r) (simp_all add: find_columns_def)

lemma filter_first_match:
  assumes "\<forall>x\<in>set pre. \<not> P x" and "P c"
  shows "filter P (pre @ c # post) = c # filter P post"
  using assms by (induction pre) simp_all

lemma row_get_missing: "key \<notin> fst ` set row \<Longrightarrow> row_get row key d = d"
proof -
  assume "key \<notin> fst ` set row"
  then have "filter (\<lambda>kv. fst kv = key) row = []"
    by (auto simp: filter_empty_conv)
  then show ?thesis by (simp add: row_get_def)
qed

lemma coerce_visit_zero: "coerce_visit parse (PInt 0) = PInt 0"
  by (simp add: coerce_visit_def visit_try_def round_double_def cut_fraction_def)

lemma coerce_sleep_zero: "coerce_sleep parse (PInt 0) = PFloat (Finite 0)"
  by (simp add: coerce_sleep_def sleep_try_def round_double_def)

lemma role_value_pick:
  "role_value r (make_row parse m row) =
     (case r of Visits \<Rightarrow> coerce_visit parse (pick (role_col r m) row (PInt 0))
      | Sleep \<Rightarrow> coerce_sleep parse (pick (role_col r m) row (PInt 0))
      | _ \<Rightarrow> pick (role_col r m) row PNone)"
  by (cases r) (simp_all add: make_row_def)

text \<open>
  Claim C2. For every role and every list of column labels: when a label matches the
  role's keywords and none before it does, the role is bound to that label, whatever labels
  follow, and the parameter the role gives to the insert is the row's value under that
  label (converted, for the visit count and the sleep hours); when no label matches, the
  role is unbound, and the parameter is \<open>None\<close> for a text role and zero for the visit count
  and the sleep hours, as for an absent value.
\<close>

theorem first_match_binds:
  "(cols = pre @ c # post \<and> matches r c \<and> (\<forall>x\<in>set pre. \<not> matches r x)
      \<longrightarrow> bound_to r (find_columns cols) = Some c
          \<and> pick (role_col r (find_columns cols)) row d = row_get row c d
          \<and> role_value r (make_row parse (find_columns cols) row)
              = (case r of Visits \<Rightarrow> coerce_visit parse (row_get row c (PInt 0))
                 | Sleep \<Rightarrow> coerce_sleep parse (row_get row c (PInt 0))
                 | _ \<Rightarrow> row_get row c PNone))
   \<and> ((\<forall>x\<in>set cols. \<not> matches r x)
      \<longrightarrow> bound_to r (find_columns cols) = None
          \<and> role_value r (make_row parse (find_columns cols) row)
              = (case r of Visits \<Rightarrow> PInt 0 | Sleep \<Rightarrow> PFloat (Finite 0) | _ \<Rightarrow> PNone))"
proof (intro conjI impI)
  assume a: "cols = pre @ c # post \<and> matches r c \<and> (\<forall>x\<in>set pre. \<not> matches r x)"
  then have f: "role_col r (find_columns cols) = c # filter (matches r) post"
    by (simp add: role_col_find filter_first_match)
  show "bound_to r (find_columns cols) = Some c"
    by (simp add: bound_to_def f)
  show "pick (role_col r (find_columns cols)) row d = row_get row c d"
    by (simp add: pick_def f)
  show "role_value r (make_row parse (find_columns cols) row)
      = (case r of Visits \<Rightarrow> coerce_visit parse (row_get row c (PInt 0))
         | Sleep \<Rightarrow> coerce_sleep parse (row_get row c (PInt 0))
         | _ \<Rightarrow> row_get row c PNone)"
    using f by (cases r) (simp_all add: role_value_pick pick_def)
next
  assume a: "\<forall>x\<in>set cols. \<not> matches r x"
  then have f: "role_col r (find_columns cols) = []"
    by (simp add: role_col_find filter_empty_conv)
  show "bound_to r (find_columns cols) = None"
    by (simp add: bound_to_def f)
  show "role_value r (make_row parse (find_columns cols) row)
      = (case r of Visits \<Rightarrow> PInt 0 | Sleep \<Rightarrow> PFloat (Finite 0) | _ \<Rightarrow> PNone)"
    using f by (cases r) (simp_all add: role_value_pick pick_def coerce_visit_zero coerce_sleep_zero)
qed

lemmas lower_eval = lower_def lower_char_def is_upper_def

theorem first_match_binds_witness:
  "bound_to Age_group (find_columns [''age_group_old'', ''age_group_new'']) = Some ''age_group_old''
   \<and> age_group (make_row (\<lambda>s. None) (find_columns [''age_group_old'', ''age_group_new''])
        [(''age_group_old'', PStr ''18-25''), (''age_group_new'', PStr ''26-35'')]) = PStr ''18-25''
   \<and> bound_to Sleep (find_columns [''age_group_old'', ''age_group_new'']) = None
   \<and> sleep_hours (make_row (\<lambda>s. None) (find_columns [''age_group_old'', ''age_group_new''])
        [(''age_group_old'', PStr ''18-25''), (''age_group_new'', PStr ''26-35'')]) = PFloat (Finite 0)"
proof -
  have m1: "matches Age_group ''age_group_old''" by (simp add: lower_eval)
  have m2: "\<forall>x\<in>set [''age_group_old'', ''age_group_new'']. \<not> matches Sleep x"
    by (simp add: lower_eval)
  have g: "row_get [(''age_group_old'', PStr ''18-25''), (''age_group_new'', PStr ''26-35'')]
      ''age_group_old'' PNone = PStr ''18-25''"
    by (simp add: row_get_def)
  from first_match_binds[where cols = "[''age_group_old'', ''age_group_new'']" and pre = "[]"
      and c = "''age_group_old''" and post = "[''age_group_new'']" and r = Age_group
      and row = "[(''age_group_old'', PStr ''18-25''), (''age_group_new'', PStr ''26-35'')]"
      and d = PNone and parse = "\<lambda>s. None"] m1
  have a: "bound_to Age_group (find_columns [''age_group_old'', ''age_group_new'']) = Some ''age_group_old''
   \<and> role_value Age_group (make_row (\<lambda>s. None) (find_columns [''age_group_old'', ''age_group_new''])
        [(''age_group_old'', PStr ''18-25''), (''age_group_new'', PStr ''26-35'')])
      = row_get [(''age_group_old'', PStr ''18-25''), (''age_group_new'', PStr ''26-35'')]
      ''age_group_old'' PNone"
    by simp
  from first_match_binds[where cols = "[''age_group_old'', ''age_group_new'']" and pre = "[]"
      and c = "''age_group_old''" and post = "[''age_group_new'']" and r = Sleep
      and row = "[(''age_group_old'', PStr ''18-25''), (''age_group_new'', PStr ''26-35'')]"
      and d = PNone and parse = "\<lambda>s. None"] m2
  have b: "bound_to Sleep (find_columns [''age_group_old'', ''age_group_new'']) = None
   \<and> role_value Sleep (make_row (\<lambda>s. None) (find_columns [''age_group_old'', ''age_group_new''])
        [(''age_group_old'', PStr ''18-25''), (''age_group_new'', PStr ''26-35'')]) = PFloat (Finite 0)"
    by simp
  from a b g show ?thesis by simp
qed

section \<open>Properties of the Row Loader, one row\<close>

lemmas name_eval = clean_name_def strip_def is_space_def replace_def

lemma visit_try_int: "visit_try parse v = Inr x \<Longrightarrow> \<exists>n. x = PInt n"
  by (auto simp: visit_try_def split: sum.splits bool.splits)

lemma coerce_visit_int: "\<exists>n. coerce_visit parse v = PInt n"
  by (auto simp: coerce_visit_def dest: visit_try_int split: sum.splits)

lemma cut_fraction_towards_zero:
  "\<bar>of_int (cut_fraction q)\<bar> \<le> \<bar>q\<bar> \<and> \<bar>q - of_int (cut_fraction q)\<bar> < 1"
proof (cases "0 \<le> q")
  case True
  define c where "c = rat_of_int \<lfloor>q\<rfloor>"
  have "c \<le> q" "q < c + 1"
    using floor_correct[of q] by (simp_all add: c_def)
  moreover from True have "0 \<le> c" by (simp add: c_def)
  ultimately have "\<bar>c\<bar> \<le> \<bar>q\<bar> \<and> \<bar>q - c\<bar> < 1" by (auto simp: abs_if)
  with True show ?thesis by (simp add: cut_fraction_def c_def)
next
  case False
  define c where "c = rat_of_int \<lceil>q\<rceil>"
  have "c - 1 < q" "q \<le> c"
    using ceiling_correct[of q] by (simp_all add: c_def)
  moreover from False have "\<lceil>q\<rceil> \<le> 0" by (simp add: ceiling_le_iff)
  then have "c \<le> 0" by (simp add: c_def)
  ultimately have "\<bar>c\<bar> \<le> \<bar>q\<bar> \<and> \<bar>q - c\<bar> < 1" using False by (auto simp: abs_if)
  with False show ?thesis by (simp add: cut_fraction_def c_def)
qed

text \<open>
  Claim C5. For every record, the visit count and the sleep hours given to the insert are
  the conversions of the values the record holds for those roles. The visit count is always
  an integer. Where the value is present and \<open>float\<close> reads it as a finite number, it is
  that number with its fraction cut off; where \<open>float\<close> cannot read the text, where the
  value is absent, and where anything else in the conversion raises, it is 0. The sleep
  hours are the float that \<open>float\<close> reads, and 0 in the same three cases. No failure of a
  conversion leaves its \<open>try\<close>.
\<close>

theorem numeric_roles_default_to_zero:
  "healthcare_visits_count (make_row parse m row)
       = coerce_visit parse (pick (visit_col m) row (PInt 0))
   \<and> sleep_hours (make_row parse m row) = coerce_sleep parse (pick (sleep_col m) row (PInt 0))
   \<and> (\<exists>n. healthcare_visits_count (make_row parse m row) = PInt n)
   \<and> (notna v = Inr True \<and> py_float parse v = Inr (Finite q)
        \<longrightarrow> coerce_visit parse v = PInt (cut_fraction q)
            \<and> \<bar>of_int (cut_fraction q)\<bar> \<le> \<bar>q\<bar> \<and> \<bar>q - of_int (cut_fraction q)\<bar> < 1)
   \<and> (notna v = Inr True \<and> py_float parse v = Inr f \<longrightarrow> coerce_sleep parse v = PFloat f)
   \<and> (parse s = None
        \<longrightarrow> coerce_visit parse (PStr s) = PInt 0 \<and> coerce_sleep parse (PStr s) = PInt 0)
   \<and> (v = PNone \<or> v = PFloat NaN \<or> v = PNaT
        \<longrightarrow> coerce_visit parse v = PInt 0 \<and> coerce_sleep parse v = PInt 0)
   \<and> (visit_try parse v = Inl e \<longrightarrow> coerce_visit parse v = PInt 0)
   \<and> (sleep_try parse v = Inl e \<longrightarrow> coerce_sleep parse v = PInt 0)"
proof (intro conjI impI)
  show "healthcare_visits_count (make_row parse m row)
      = coerce_visit parse (pick (visit_col m) row (PInt 0))"
    by (simp add: make_row_def)
  show "sleep_hours (make_row parse m row) = coerce_sleep parse (pick (sleep_col m) row (PInt 0))"
    by (simp add: make_row_def)
  show "\<exists>n. healthcare_visits_count (make_row parse m row) = PInt n"
    by (simp add: make_row_def coerce_visit_int)
next
  assume "notna v = Inr True \<and> py_float parse v = Inr (Finite q)"
  then show "coerce_visit parse v = PInt (cut_fraction q)"
    by (simp add: coerce_visit_def visit_try_def)
next
  show "\<bar>of_int (cut_fraction q)\<bar> \<le> \<bar>q\<bar>" "\<bar>q - of_int (cut_fraction q)\<bar> < 1"
    using cut_fraction_towards_zero[of q] by simp_all
next
  assume "notna v = Inr True \<and> py_float parse v = Inr f"
  then show "coerce_sleep parse v = PFloat f"
    by (simp add: coerce_sleep_def sleep_try_def)
next
  assume "parse s = None"
  then show "coerce_visit parse (PStr s) = PInt 0" "coerce_sleep parse (PStr s) = PInt 0"
    by (simp_all add: coerce_visit_def visit_try_def coerce_sleep_def sleep_try_def)
next
  assume "v = PNone \<or> v = PFloat NaN \<or> v = PNaT"
  then show "coerce_visit parse v = PInt 0" "coerce_sleep parse v = PInt 0"
    by (auto simp: coerce_visit_def visit_try_def coerce_sleep_def sleep_try_def)
next
  assume "visit_try parse v = Inl e"
  then show "coerce_visit parse v = PInt 0" by (simp add: coerce_visit_def)
next
  assume "sleep_try parse v = Inl e"
  then show "coerce_sleep parse v = PInt 0" by (simp add: coerce_sleep_def)
qed

theorem numeric_roles_default_to_zero_witness:
  "coerce_visit demo_float (PStr ''2.9'') = PInt 2
   \<and> coerce_sleep demo_float (PStr ''2.9'') = PFloat (Finite (29 / 10))
   \<and> coerce_visit demo_float (PStr ''N/A'') = PInt 0
   \<and> coerce_sleep demo_float (PStr ''N/A'') = PInt 0
   \<and> coerce_visit demo_float (PFloat NaN) = PInt 0
   \<and> coerce_sleep demo_float (PFloat NaN) = PInt 0
   \<and> coerce_visit demo_float (PStr ''inf'') = PInt 0
   \<and> coerce_visit demo_float (PSeries [PStr ''1'', PStr ''2'']) = PInt 0
   \<and> coerce_sleep demo_float (PSeries [PStr ''1'', PStr ''2'']) = PInt 0
   \<and> healthcare_visits_count (make_row demo_float (find_columns [''visits'', ''sleep''])
        [(''visits'', PStr ''N/A''), (''sleep'', PStr ''2.9'')]) = PInt 0
   \<and> sleep_hours (make_row demo_float (find_columns [''visits'', ''sleep''])
        [(''visits'', PStr ''N/A''), (''sleep'', PStr ''2.9'')]) = PFloat (Finite (29 / 10))"
proof -
  have a: "notna (PStr ''2.9'') = Inr True
      \<and> py_float demo_float (PStr ''2.9'') = Inr (Finite (29 / 10))"
    by (simp add: demo_float_def)
  have b: "demo_float ''N/A'' = None" by (simp add: demo_float_def)
  have c: "visit_try demo_float (PStr ''inf'') = Inl OverflowError"
    by (simp add: visit_try_def demo_float_def)
  have d: "visit_try demo_float (PSeries [PStr ''1'', PStr ''2'']) = Inl ValueError"
    "sleep_try demo_float (PSeries [PStr ''1'', PStr ''2'']) = Inl ValueError"
    by (simp_all add: visit_try_def sleep_try_def)
  have t: "cut_fraction (29 / 10) = 2" by (simp add: cut_fraction_def floor_eq_iff)
  note th = numeric_roles_default_to_zero[where parse = demo_float]
  from th[of _ _ "PStr ''2.9''" "29 / 10" "Finite (29 / 10)"] a t
  have 1: "coerce_visit demo_float (PStr ''2.9'') = PInt 2
    \<and> coerce_sleep demo_float (PStr ''2.9'') = PFloat (Finite (29 / 10))" by simp
  from th[of _ _ _ _ _ "''N/A''"] b
  have 2: "coerce_visit demo_float (PStr ''N/A'') = PInt 0
    \<and> coerce_sleep demo_float (PStr ''N/A'') = PInt 0" by blast
  from th[of _ _ "PFloat NaN"]
  have 3: "coerce_visit demo_float (PFloat NaN) = PInt 0
    \<and> coerce_sleep demo_float (PFloat NaN) = PInt 0" by blast
  from th[of _ _ "PStr ''inf''" _ _ _ OverflowError] c
  have 4: "coerce_visit demo_float (PStr ''inf'') = PInt 0" by blast
  from th[of _ _ "PSeries [PStr ''1'', PStr ''2'']" _ _ _ ValueError] d
  have 5: "coerce_visit demo_float (PSeries [PStr ''1'', PStr ''2'']) = PInt 0
    \<and> coerce_sleep demo_float (PSeries [PStr ''1'', PStr ''2'']) = PInt 0" by blast
  have p: "pick (visit_col (find_columns [''visits'', ''sleep'']))
        [(''visits'', PStr ''N/A''), (''sleep'', PStr ''2.9'')] (PInt 0) = PStr ''N/A''"
    "pick (sleep_col (find_columns [''visits'', ''sleep'']))
        [(''visits'', PStr ''N/A''), (''sleep'', PStr ''2.9'')] (PInt 0) = PStr ''2.9''"
    by (simp_all add: find_columns_def lower_eval pick_def row_get_def)
  from th[of "find_columns [''visits'', ''sleep'']"
      "[(''visits'', PStr ''N/A''), (''sleep'', PStr ''2.9'')]"] p 1 2
  have 6: "healthcare_visits_count (make_row demo_float (find_columns [''visits'', ''sleep''])
        [(''visits'', PStr ''N/A''), (''sleep'', PStr ''2.9'')]) = PInt 0
    \<and> sleep_hours (make_row demo_float (find_columns [''visits'', ''sleep''])
        [(''visits'', PStr ''N/A''), (''sleep'', PStr ''2.9'')]) = PFloat (Finite (29 / 10))"
    by simp
  from 1 2 3 4 5 6 show ?thesis by blast
qed

lemma row_get_own_label:
  "row_get row key d = row_get (filter (\<lambda>kv. fst kv = key) row) key d"
  by (simp add: row_get_def cong: filter_cong)

lemma convert_column_columns: "convert_column ts name df = Inr df' \<Longrightarrow> columns df' = columns df"
  by (auto simp: convert_column_def split: if_splits)

lemma clean_frame_columns:
  "clean_frame ts raw = Inr df \<Longrightarrow> columns df = map clean_name (columns raw)"
  by (auto simp: clean_frame_def split: sum.splits dest!: convert_column_columns)

lemma frame_row_labels: "row \<in> set (frame_rows df) \<Longrightarrow> fst ` set row \<subseteq> set (columns df)"
  by (auto simp: frame_rows_def dest: set_zip_leftD)

lemma demo_clean_frame: "clean_frame ts demo_frame = Inr demo_clean"
  by (simp add: clean_frame_def convert_column_def demo_frame_def demo_clean_def name_eval)

lemma demo_columns:
  "find_columns (columns demo_clean) =
     \<lparr>age_col = [''Age_Group''], vacc_col = [''Vaccination_Status''], visit_col = [],
      exercise_col = [], water_col = [], sleep_col = [], insurance_col = [],
      gender_col = [''Gender'']\<rparr>"
  by (simp add: find_columns_def demo_clean_def lower_eval)

text \<open>
  Claim C10. The two timestamps of a row are read under the labels \<open>start\<close> and \<open>end\<close> and
  nowhere else: they do not depend on the mapping of the Column Resolver, nor on any cell
  under another label. So when no canonical name of the table is \<open>start\<close> (or \<open>end\<close>), every
  row of the cleaned table is inserted with \<open>None\<close> as its submission start (or end).
\<close>

theorem timestamps_only_from_start_and_end:
  "(clean_frame ts raw = Inr df \<and> ''start'' \<notin> set (map clean_name (columns raw))
      \<longrightarrow> (\<forall>row\<in>set (frame_rows df). submission_start (make_row parse m row) = PNone))
   \<and> (clean_frame ts raw = Inr df \<and> ''end'' \<notin> set (map clean_name (columns raw))
      \<longrightarrow> (\<forall>row\<in>set (frame_rows df). submission_end (make_row parse m row) = PNone))
   \<and> submission_start (make_row parse m row)
       = row_get (filter (\<lambda>kv. fst kv = ''start'') row) ''start'' PNone
   \<and> submission_end (make_row parse m row)
       = row_get (filter (\<lambda>kv. fst kv = ''end'') row) ''end'' PNone"
proof (intro conjI impI ballI)
  fix r
  assume a: "clean_frame ts raw = Inr df \<and> ''start'' \<notin> set (map clean_name (columns raw))"
    and r: "r \<in> set (frame_rows df)"
  from a have "''start'' \<notin> set (columns df)" using clean_frame_columns[of ts raw df] by simp
  with frame_row_labels[OF r] have "''start'' \<notin> fst ` set r" by blast
  then show "submission_start (make_row parse m r) = PNone"
    by (simp add: make_row_def row_get_missing)
next
  fix r
  assume a: "clean_frame ts raw = Inr df \<and> ''end'' \<notin> set (map clean_name (columns raw))"
    and r: "r \<in> set (frame_rows df)"
  from a have "''end'' \<notin> set (columns df)" using clean_frame_columns[of ts raw df] by simp
  with frame_row_labels[OF r] have "''end'' \<notin> fst ` set r" by blast
  then show "submission_end (make_row parse m r) = PNone"
    by (simp add: make_row_def row_get_missing)
next
  show "submission_start (make_row parse m row)
       = row_get (filter (\<lambda>kv. fst kv = ''start'') row) ''start'' PNone"
    using row_get_own_label[of row "''start''"] by (simp add: make_row_def)
  show "submission_end (make_row parse m row)
       = row_get (filter (\<lambda>kv. fst kv = ''end'') row) ''end'' PNone"
    using row_get_own_label[of row "''end''"] by (simp add: make_row_def)
qed

theorem timestamps_only_from_start_and_end_witness:
  "clean_frame (\<lambda>v. Some 7) demo_frame = Inr demo_clean
   \<and> ''start'' \<notin> set (map clean_name (columns demo_frame))
   \<and> ''end'' \<notin> set (map clean_name (columns demo_frame))
   \<and> map (\<lambda>row. submission_start (make_row demo_float (find_columns (columns demo_clean)) row))
        (frame_rows demo_clean) = [PNone, PNone]
   \<and> map (\<lambda>row. submission_end (make_row demo_float (find_columns (columns demo_clean)) row))
        (frame_rows demo_clean) = [PNone, PNone]"
proof -
  have c: "clean_frame (\<lambda>v. Some 7) demo_frame = Inr demo_clean" by (rule demo_clean_frame)
  have s: "''start'' \<notin> set (map clean_name (columns demo_frame))"
    and e: "''end'' \<notin> set (map clean_name (columns demo_frame))"
    by (simp_all add: demo_frame_def name_eval)
  note th = timestamps_only_from_start_and_end[of "\<lambda>v. Some 7" demo_frame demo_clean
      demo_float "find_columns (columns demo_clean)"]
  from th c s have "\<forall>row\<in>set (frame_rows demo_clean).
      submission_start (make_row demo_float (find_columns (columns demo_clean)) row) = PNone"
    by blast
  moreover from th c e have "\<forall>row\<in>set (frame_rows demo_clean).
      submission_end (make_row demo_float (find_columns (columns demo_clean)) row) = PNone"
    by blast
  moreover have "length (frame_rows demo_clean) = 2"
    by (simp add: frame_rows_def demo_clean_def)
  ultimately show ?thesis using c s e
    by (auto simp: list_eq_iff_nth_eq less_Suc_eq numeral_2_eq_2)
qed

text \<open>
  Claim C4, on the specification's own scenario: the second record has an empty Age Group,
  which pandas decodes as the float \<open>NaN\<close>. The role is bound to \<open>Age_Group\<close>, and the
  parameter the insert receives for \<open>age_group\<close> is that \<open>NaN\<close>, not \<open>None\<close>: the text roles
  have no test of \<open>pd.notna\<close>, which the two numeric roles have.
\<close>

theorem empty_age_group_is_passed_as_nan:
  "clean_frame ts demo_frame = Inr demo_clean
   \<and> bound_to Age_group (find_columns (columns demo_clean)) = Some ''Age_Group''
   \<and> map (\<lambda>row. age_group (make_row parse (find_columns (columns demo_clean)) row))
        (frame_rows demo_clean) = [PStr ''18-25'', PFloat NaN]
   \<and> PFloat NaN \<noteq> PNone"
  by (simp add: demo_clean_frame demo_columns bound_to_def)
     (simp add: demo_clean_def frame_rows_def make_row_def pick_def row_get_def)

section \<open>Properties of the Row Loader, the loop\<close>

lemma exec_parts:
  "conn (snd (exec st q s)) = snd (execute st (conn s) q)"
  "fst (exec st q s) = fst (execute st (conn s) q)"
  "calls (snd (exec st q s)) = calls s @ [Execute q]"
  "printed (snd (exec st q s)) = printed s"
  "records_inserted (snd (exec st q s)) = records_inserted s"
  "errors_count (snd (exec st q s)) = errors_count s"
  by (simp_all add: exec_def split: prod.splits)

lemma insert_row_ok:
  assumes "fst (exec st (Insert_row schema_name table_name (make_row parse m (snd ir))) s) = None"
  shows "records_inserted (insert_row st parse m len s ir) = records_inserted s + 1"
    and "errors_count (insert_row st parse m len s ir) = errors_count s"
    and "filter is_warning (printed (insert_row st parse m len s ir)) = filter is_warning (printed s)"
  using assms
  by (auto simp: insert_row_def Let_def exec_def split: prod.splits option.splits)

lemma insert_row_raised:
  assumes "fst (exec st (Insert_row schema_name table_name (make_row parse m (snd ir))) s) = Some e"
  shows "records_inserted (insert_row st parse m len s ir) = records_inserted s"
    and "errors_count (insert_row st parse m len s ir) = errors_count s + 1"
    and "filter is_warning (printed (insert_row st parse m len s ir))
          = filter is_warning (printed s) @ (if errors_count s < 3 then [Row_warning (fst ir) e] else [])"
  using assms
  by (auto simp: insert_row_def Let_def exec_def split: prod.splits option.splits)

lemma insert_row_calls:
  "calls (insert_row st parse m len s ir)
     = calls s @ [Execute (Insert_row schema_name table_name (make_row parse m (snd ir)))]"
  by (auto simp: insert_row_def Let_def exec_def split: prod.splits option.splits)

lemma insert_answers_length: "length (insert_answers st parse m len s irs) = length irs"
  by (induction irs arbitrary: s) simp_all

lemma insert_rows_calls:
  "calls (insert_rows st parse m len s irs)
     = calls s @ map (\<lambda>ir. Execute (Insert_row schema_name table_name (make_row parse m (snd ir)))) irs"
  by (induction irs arbitrary: s) (simp_all add: insert_row_calls)

lemma insert_rows_counts:
  "records_inserted (insert_rows st parse m len s irs)
     = records_inserted s + length (filter (\<lambda>a. a = None) (insert_answers st parse m len s irs))
   \<and> errors_count (insert_rows st parse m len s irs)
     = errors_count s + length (filter (\<lambda>a. a \<noteq> None) (insert_answers st parse m len s irs))"
proof (induction irs arbitrary: s)
  case Nil
  then show ?case by simp
next
  case (Cons ir irs)
  show ?case
  proof (cases "fst (exec st (Insert_row schema_name table_name (make_row parse m (snd ir))) s)")
    case None
    with Cons[of "insert_row st parse m len s ir"] show ?thesis
      by (simp add: insert_row_ok)
  next
    case (Some e)
    with Cons[of "insert_row st parse m len s ir"] show ?thesis
      by (simp add: insert_row_raised)
  qed
qed

lemma insert_rows_warnings:
  "filter is_warning (printed (insert_rows st parse m len s irs))
     = filter is_warning (printed s)
       @ map (\<lambda>ie. Row_warning (fst ie) (snd ie))
           (take (3 - errors_count s) (failures irs (insert_answers st parse m len s irs)))"
proof (induction irs arbitrary: s)
  case Nil
  then show ?case by simp
next
  case (Cons ir irs)
  show ?case
  proof (cases "fst (exec st (Insert_row schema_name table_name (make_row parse m (snd ir))) s)")
    case None
    with Cons[of "insert_row st parse m len s ir"] show ?thesis
      by (simp add: insert_row_ok)
  next
    case (Some e)
    show ?thesis
    proof (cases "errors_count s < 3")
      case True
      then obtain k where k: "3 - errors_count s = Suc k" "3 - (errors_count s + 1) = k"
        by (cases "3 - errors_count s") auto
      with Some True Cons[of "insert_row st parse m len s ir"] show ?thesis
        by (simp add: insert_row_raised)
    next
      case False
      with Some Cons[of "insert_row st parse m len s ir"] show ?thesis
        by (simp add: insert_row_raised)
    qed
  qed
qed

lemma failures_length:
  "length as = length irs \<Longrightarrow> length (failures irs as) = length (filter (\<lambda>a. a \<noteq> None) as)"
  by (induction irs as rule: failures.induct) simp_all


lemma say_parts:
  "conn (say l s) = conn s" "calls (say l s) = calls s" "printed (say l s) = printed s @ [l]"
  "records_inserted (say l s) = records_inserted s" "errors_count (say l s) = errors_count s"
  by (simp_all add: say_def)

lemma loop_answers_length: "length (loop_answers st parse df s) = length (rows df)"
  by (simp add: loop_answers_def insert_answers_length frame_rows_def)

lemma map_snd_enumerate_fun: "map (\<lambda>ir. f (snd ir)) (enumerate n xs) = map f xs"
  by (induction xs arbitrary: n) simp_all

lemma run_loop_calls:
  "calls (run_loop st parse df s)
     = calls s @ map (\<lambda>row. Execute (Insert_row schema_name table_name
                        (make_row parse (find_columns (columns df)) row))) (frame_rows df)"
  using map_snd_enumerate_fun[of "\<lambda>row. Execute (Insert_row schema_name table_name
      (make_row parse (find_columns (columns df)) row))" 0 "frame_rows df"]
  by (simp add: run_loop_def insert_rows_calls say_parts)

lemma run_loop_counts:
  "records_inserted (run_loop st parse df s)
     = records_inserted s + length (filter (\<lambda>a. a = None) (loop_answers st parse df s))"
  "errors_count (run_loop st parse df s)
     = errors_count s + length (filter (\<lambda>a. a \<noteq> None) (loop_answers st parse df s))"
  using insert_rows_counts[of st parse "find_columns (columns df)" "length (rows df)"
      "say (Inserting (length (rows df))) s" "enumerate 0 (frame_rows df)"]
  by (simp_all add: run_loop_def loop_answers_def say_parts)

lemma run_loop_warnings:
  "filter is_warning (printed (run_loop st parse df s))
     = filter is_warning (printed s)
       @ map (\<lambda>ie. Row_warning (fst ie) (snd ie))
           (take (3 - errors_count s)
             (failures (enumerate 0 (frame_rows df)) (loop_answers st parse df s)))"
  using insert_rows_warnings[of st parse "find_columns (columns df)" "length (rows df)"
      "say (Inserting (length (rows df))) s" "enumerate 0 (frame_rows df)"]
  by (simp add: run_loop_def loop_answers_def say_parts)

lemma loop_failures_length:
  "length (failures (enumerate 0 (frame_rows df)) (loop_answers st parse df s))
     = length (filter (\<lambda>a. a \<noteq> None) (loop_answers st parse df s))"
  by (rule failures_length) (simp add: loop_answers_length frame_rows_def)

text \<open>
  For every store: when exactly one insert of the loop raises and the commit does not, the
  load goes on to its end, with N - 1 rows counted as inserted and one as failed. What the
  store then holds is the store's matter.
\<close>

lemma one_failed_insert_is_counted:
  assumes "records_inserted s = 0" and "errors_count s = 0"
    and "length (filter (\<lambda>a. a \<noteq> None) (loop_answers st parse df s)) = 1"
    and "fst (commit st (conn (run_loop st parse df s))) = None"
  shows "\<exists>s2. load st parse df s = Inr s2
      \<and> records_inserted s2 = length (rows df) - 1
      \<and> errors_count s2 = 1
      \<and> calls s2 = calls s
          @ map (\<lambda>row. Execute (Insert_row schema_name table_name
                   (make_row parse (find_columns (columns df)) row))) (frame_rows df)
          @ [Commit]
      \<and> filter is_warning (printed s2) = filter is_warning (printed s)
          @ map (\<lambda>ie. Row_warning (fst ie) (snd ie))
              (failures (enumerate 0 (frame_rows df)) (loop_answers st parse df s))
      \<and> length (filter is_warning (printed s2)) = length (filter is_warning (printed s)) + 1
      \<and> printed s2 = printed (run_loop st parse df s)
          @ [Inserted_ok (length (rows df) - 1), Failed_count 1]
      \<and> length (filter is_warning (printed (run_loop st parse df s)))
          \<le> length (filter is_warning (printed s)) + 3"
proof -
  let ?s1 = "run_loop st parse df s"
  let ?as = "loop_answers st parse df s"
  have "length (filter (\<lambda>a. a = None) ?as) + length (filter (\<lambda>a. a \<noteq> None) ?as) = length ?as"
    using sum_length_filter_compl[of "\<lambda>a. a = None" ?as] by simp
  with assms(3) have ok: "length (filter (\<lambda>a. a = None) ?as) = length (rows df) - 1"
    by (simp add: loop_answers_length)
  have r: "records_inserted ?s1 = length (rows df) - 1"
    using assms(1) ok by (simp add: run_loop_counts)
  have e: "errors_count ?s1 = 1"
    using assms(2,3) by (simp add: run_loop_counts)
  have fl: "length (failures (enumerate 0 (frame_rows df)) ?as) = 1"
    using assms(3) by (simp add: loop_failures_length)
  have w: "filter is_warning (printed ?s1) = filter is_warning (printed s)
      @ map (\<lambda>ie. Row_warning (fst ie) (snd ie)) (failures (enumerate 0 (frame_rows df)) ?as)"
    using fl assms(2) by (simp add: run_loop_warnings)
  obtain c where c: "commit st (conn ?s1) = (None, c)"
    using assms(4) by (cases "commit st (conn ?s1)") simp
  define s2 where "s2 = ?s1\<lparr>conn := c, calls := calls ?s1 @ [Commit],
      printed := printed ?s1 @ [Inserted_ok (length (rows df) - 1), Failed_count 1]\<rparr>"
  have "load st parse df s = Inr s2"
    using c r e by (simp add: load_def Let_def s2_def)
  moreover have "records_inserted s2 = length (rows df) - 1" "errors_count s2 = 1"
    using r e by (simp_all add: s2_def)
  moreover have "calls s2 = calls s
          @ map (\<lambda>row. Execute (Insert_row schema_name table_name
                   (make_row parse (find_columns (columns df)) row))) (frame_rows df)
          @ [Commit]"
    by (simp add: s2_def run_loop_calls)
  moreover have "filter is_warning (printed s2) = filter is_warning (printed s)
          @ map (\<lambda>ie. Row_warning (fst ie) (snd ie))
              (failures (enumerate 0 (frame_rows df)) ?as)"
    using w by (simp add: s2_def)
  moreover from this fl
  have "length (filter is_warning (printed s2)) = length (filter is_warning (printed s)) + 1"
    by simp
  moreover have "printed s2 = printed ?s1 @ [Inserted_ok (length (rows df) - 1), Failed_count 1]"
    by (simp add: s2_def)
  moreover have "length (filter is_warning (printed ?s1))
      \<le> length (filter is_warning (printed s)) + 3"
    by (simp add: run_loop_warnings)
  ultimately show ?thesis by blast
qed

section \<open>Properties of the timestamp conversion\<close>

lemma zip_map_zip: "zip xs (map f (zip xs ys)) = map (\<lambda>p. (fst p, f p)) (zip xs ys)"
proof (induction xs arbitrary: ys)
  case Nil
  then show ?case by simp
next
  case (Cons x xs)
  then show ?case by (cases ys) simp_all
qed

lemma unlabelled_cells_kept:
  assumes "name \<notin> set cols" and "length cells = length cols"
  shows "map (\<lambda>cv. if fst cv = name then g (snd cv) else snd cv) (zip cols cells) = cells"
proof -
  have "map (\<lambda>cv. if fst cv = name then g (snd cv) else snd cv) (zip cols cells)
      = map snd (zip cols cells)"
    using assms(1) by (auto dest: set_zip_leftD)
  then show ?thesis using assms(2) by simp
qed

lemma convert_column_rows:
  assumes "\<forall>cells\<in>set (rows df). length cells = length (columns df)"
    and "count_list (columns df) name \<le> 1"
  shows "convert_column ts name df =
     Inr (df\<lparr>rows := map (\<lambda>cells.
            map (\<lambda>cv. if fst cv = name then to_datetime_coerce ts (snd cv) else snd cv)
              (zip (columns df) cells)) (rows df)\<rparr>)"
proof (cases "name \<in> set (columns df)")
  case True
  with assms(2) show ?thesis by (simp add: convert_column_def)
next
  case False
  have "map (\<lambda>cells.
            map (\<lambda>cv. if fst cv = name then to_datetime_coerce ts (snd cv) else snd cv)
              (zip (columns df) cells)) (rows df) = rows df"
    using assms(1) False by (simp add: unlabelled_cells_kept map_idI)
  with False show ?thesis by (simp add: convert_column_def)
qed

lemma clean_frame_coerces:
  assumes "\<forall>cells\<in>set (rows raw). length cells = length (columns raw)"
    and "count_list (map clean_name (columns raw)) ''start'' \<le> 1"
    and "count_list (map clean_name (columns raw)) ''end'' \<le> 1"
  shows "clean_frame ts raw =
       Inr \<lparr>columns = map clean_name (columns raw),
            rows = map (\<lambda>cells.
              map (\<lambda>cv. if fst cv = ''start'' \<or> fst cv = ''end''
                         then to_datetime_coerce ts (snd cv) else snd cv)
                (zip (map clean_name (columns raw)) cells)) (rows raw)\<rparr>
     \<and> (ts v = None \<longrightarrow> to_datetime_coerce ts v = PNaT)
     \<and> (ts v = Some t \<longrightarrow> to_datetime_coerce ts v = PTime t)"
proof -
  let ?cols = "map clean_name (columns raw)"
  let ?df0 = "raw\<lparr>columns := ?cols\<rparr>"
  let ?f = "\<lambda>name cv. if fst cv = name then to_datetime_coerce ts (snd cv) else snd cv"
  let ?rows1 = "map (\<lambda>cells. map (?f ''start'') (zip ?cols cells)) (rows raw)"
  have wf0: "\<forall>cells\<in>set (rows ?df0). length cells = length (columns ?df0)"
    using assms(1) by simp
  have 1: "convert_column ts ''start'' ?df0 = Inr (?df0\<lparr>rows := ?rows1\<rparr>)"
    using convert_column_rows[OF wf0, of "''start''" ts] assms(2) by simp
  have wf1: "\<forall>cells\<in>set (rows (?df0\<lparr>rows := ?rows1\<rparr>)).
      length cells = length (columns (?df0\<lparr>rows := ?rows1\<rparr>))"
    using assms(1) by auto
  have 2: "convert_column ts ''end'' (?df0\<lparr>rows := ?rows1\<rparr>)
      = Inr (?df0\<lparr>rows := map (\<lambda>cells. map (?f ''end'') (zip ?cols cells)) ?rows1\<rparr>)"
    using convert_column_rows[OF wf1, of "''end''" ts] assms(3) by simp
  have 3: "map (\<lambda>cells. map (?f ''end'') (zip ?cols cells)) ?rows1
      = map (\<lambda>cells.
              map (\<lambda>cv. if fst cv = ''start'' \<or> fst cv = ''end''
                         then to_datetime_coerce ts (snd cv) else snd cv)
                (zip ?cols cells)) (rows raw)"
    by (simp add: zip_map_zip comp_def)
  have "clean_frame ts raw = Inr \<lparr>columns = ?cols,
        rows = map (\<lambda>cells.
              map (\<lambda>cv. if fst cv = ''start'' \<or> fst cv = ''end''
                         then to_datetime_coerce ts (snd cv) else snd cv)
                (zip ?cols cells)) (rows raw)\<rparr>"
    unfolding clean_frame_def 1 using 2 3 by simp
  then show ?thesis by (simp add: to_datetime_coerce_def)
qed

lemma counted_twice_is_member: "1 < count_list xs x \<Longrightarrow> x \<in> set xs"
  by (rule ccontr) (simp add: count_list_0_iff[THEN iffD2])

lemma clean_frame_collision:
  assumes "1 < count_list (map clean_name (columns raw)) ''start''
      \<or> 1 < count_list (map clean_name (columns raw)) ''end''"
  shows "clean_frame ts raw = Inl ValueError"
proof (cases "1 < count_list (map clean_name (columns raw)) ''start''")
  case True
  then show ?thesis
    using counted_twice_is_member[OF True]
    by (simp add: clean_frame_def convert_column_def)
next
  case False
  with assms have e: "1 < count_list (map clean_name (columns raw)) ''end''" by simp
  obtain df1 where 1: "convert_column ts ''start'' (raw\<lparr>columns := map clean_name (columns raw)\<rparr>)
      = Inr df1"
    using False by (cases "''start'' \<in> set (map clean_name (columns raw))")
      (simp_all add: convert_column_def)
  from convert_column_columns[OF 1] have c: "columns df1 = map clean_name (columns raw)" by simp
  have "convert_column ts ''end'' df1 = Inl ValueError"
    using e counted_twice_is_member[OF e] by (simp add: convert_column_def c)
  with 1 show ?thesis by (simp add: clean_frame_def)
qed

text \<open>
  Claim C8, amended. Lines 49 to 52 convert the columns named \<open>start\<close> and \<open>end\<close> after the
  cleaning, and no other. When each of the two names labels at most one column, the
  conversion succeeds: every cell of such a column becomes the timestamp it parses to, or
  the missing timestamp \<open>NaT\<close> when it does not parse, and every other cell is kept. When
  two columns or more clean to \<open>start\<close>, or to \<open>end\<close>, the conversion raises \<open>ValueError\<close>
  whatever the cells hold; a run that fetched such a table ends there, uncaught, with no
  call of the store and the database as it was found.
\<close>

theorem timestamp_columns_coerced:
  "((\<forall>cells\<in>set (rows raw). length cells = length (columns raw))
      \<and> count_list (map clean_name (columns raw)) ''start'' \<le> 1
      \<and> count_list (map clean_name (columns raw)) ''end'' \<le> 1
     \<longrightarrow> clean_frame ts raw =
       Inr \<lparr>columns = map clean_name (columns raw),
            rows = map (\<lambda>cells.
              map (\<lambda>cv. if fst cv = ''start'' \<or> fst cv = ''end''
                         then to_datetime_coerce ts (snd cv) else snd cv)
                (zip (map clean_name (columns raw)) cells)) (rows raw)\<rparr>)
   \<and> (ts v = None \<longrightarrow> to_datetime_coerce ts v = PNaT)
   \<and> (ts v = Some t \<longrightarrow> to_datetime_coerce ts v = PTime t)
   \<and> (1 < count_list (map clean_name (columns raw)) ''start''
        \<or> 1 < count_list (map clean_name (columns raw)) ''end''
     \<longrightarrow> clean_frame ts raw = Inl ValueError)
   \<and> (status_code resp = 200 \<and> read_csv lib (body resp) = Inr raw
        \<and> (1 < count_list (map clean_name (columns raw)) ''start''
             \<or> 1 < count_list (map clean_name (columns raw)) ''end'')
     \<longrightarrow> outcome (run st lib resp d) = Uncaught ValueError
         \<and> store_calls (run st lib resp d) = []
         \<and> database (run st lib resp d) = d)"
proof (intro conjI impI)
  assume "(\<forall>cells\<in>set (rows raw). length cells = length (columns raw))
      \<and> count_list (map clean_name (columns raw)) ''start'' \<le> 1
      \<and> count_list (map clean_name (columns raw)) ''end'' \<le> 1"
  then show "clean_frame ts raw =
       Inr \<lparr>columns = map clean_name (columns raw),
            rows = map (\<lambda>cells.
              map (\<lambda>cv. if fst cv = ''start'' \<or> fst cv = ''end''
                         then to_datetime_coerce ts (snd cv) else snd cv)
                (zip (map clean_name (columns raw)) cells)) (rows raw)\<rparr>"
    using clean_frame_coerces[of raw ts] by blast
next
  assume "ts v = None"
  then show "to_datetime_coerce ts v = PNaT" by (simp add: to_datetime_coerce_def)
next
  assume "ts v = Some t"
  then show "to_datetime_coerce ts v = PTime t" by (simp add: to_datetime_coerce_def)
next
  assume "1 < count_list (map clean_name (columns raw)) ''start''
        \<or> 1 < count_list (map clean_name (columns raw)) ''end''"
  then show "clean_frame ts raw = Inl ValueError" by (rule clean_frame_collision)
next
  assume a: "status_code resp = 200 \<and> read_csv lib (body resp) = Inr raw
        \<and> (1 < count_list (map clean_name (columns raw)) ''start''
             \<or> 1 < count_list (map clean_name (columns raw)) ''end'')"
  then have "clean_frame (to_datetime lib) raw = Inl ValueError"
    using clean_frame_collision[of raw "to_datetime lib"] by blast
  with a have r: "run st lib resp d = crashed ValueError
      [Fetching, Fetched_ok, Fetched_records (length (rows raw)),
       Columns_found (length (columns raw)), Processing] d"
    by (simp add: run_def Let_def)
  show "outcome (run st lib resp d) = Uncaught ValueError"
    "store_calls (run st lib resp d) = []" "database (run st lib resp d) = d"
    by (simp_all add: r crashed_def)
qed

theorem timestamp_columns_coerced_witness:
  "clean_frame demo_ts demo_times =
     Inr \<lparr>columns = [''start'', ''end'', ''Age_Group''],
          rows = [[PTime 1704448800, PNaT, PStr ''18-25'']]\<rparr>
   \<and> to_datetime_coerce demo_ts (PStr ''not a date'') = PNaT
   \<and> to_datetime_coerce demo_ts (PStr ''2024-01-05 10:00'') = PTime 1704448800
   \<and> clean_frame demo_ts demo_twice = Inl ValueError
   \<and> store_calls (run (sql_store integer_range) demo_library
        \<lparr>status_code = 200, body = ''twice''\<rparr> empty_db) = []"
proof -
  have a: "\<forall>cells\<in>set (rows demo_times). length cells = length (columns demo_times)"
    by (simp add: demo_times_def)
  have b: "count_list (map clean_name (columns demo_times)) ''start'' \<le> 1"
    and c: "count_list (map clean_name (columns demo_times)) ''end'' \<le> 1"
    by (simp_all add: demo_times_def name_eval)
  have n: "demo_ts (PStr ''not a date'') = None"
    and d: "demo_ts (PStr ''2024-01-05 10:00'') = Some 1704448800"
    by (simp_all add: demo_ts_def)
  have w: "1 < count_list (map clean_name (columns demo_twice)) ''start''"
    by (simp add: demo_twice_def name_eval)
  have r: "status_code \<lparr>status_code = 200, body = ''twice''\<rparr> = 200"
    "read_csv demo_library (body \<lparr>status_code = 200, body = ''twice''\<rparr>) = Inr demo_twice"
    by (simp_all add: demo_library_def)
  note good = timestamp_columns_coerced[where raw = demo_times and ts = demo_ts
      and v = "PStr ''not a date''"]
  note date = timestamp_columns_coerced[where raw = demo_times and ts = demo_ts
      and v = "PStr ''2024-01-05 10:00''" and t = 1704448800]
  note twice = timestamp_columns_coerced[where raw = demo_twice and ts = demo_ts
      and resp = "\<lparr>status_code = 200, body = ''twice''\<rparr>" and lib = demo_library
      and st = "sql_store integer_range" and d = empty_db]
  have 1: "clean_frame demo_ts demo_times =
       Inr \<lparr>columns = map clean_name (columns demo_times),
            rows = map (\<lambda>cells.
              map (\<lambda>cv. if fst cv = ''start'' \<or> fst cv = ''end''
                         then to_datetime_coerce demo_ts (snd cv) else snd cv)
                (zip (map clean_name (columns demo_times)) cells)) (rows demo_times)\<rparr>"
    by (rule good[THEN conjunct1, THEN mp]) (intro conjI, rule a, rule b, rule c)
  have 2: "to_datetime_coerce demo_ts (PStr ''not a date'') = PNaT"
    by (rule good[THEN conjunct2, THEN conjunct1, THEN mp]) (rule n)
  have 3: "to_datetime_coerce demo_ts (PStr ''2024-01-05 10:00'') = PTime 1704448800"
    by (rule date[THEN conjunct2, THEN conjunct2, THEN conjunct1, THEN mp]) (rule d)
  have 4: "clean_frame demo_ts demo_twice = Inl ValueError"
    by (rule twice[THEN conjunct2, THEN conjunct2, THEN conjunct2, THEN conjunct1, THEN mp])
      (rule disjI1, rule w)
  have "outcome (run (sql_store integer_range) demo_library
        \<lparr>status_code = 200, body = ''twice''\<rparr> empty_db) = Uncaught ValueError
      \<and> store_calls (run (sql_store integer_range) demo_library
        \<lparr>status_code = 200, body = ''twice''\<rparr> empty_db) = []
      \<and> database (run (sql_store integer_range) demo_library
        \<lparr>status_code = 200, body = ''twice''\<rparr> empty_db) = empty_db"
    by (rule twice[THEN conjunct2, THEN conjunct2, THEN conjunct2, THEN conjunct2, THEN mp])
      (intro conjI, rule r(1), rule r(2), rule disjI1, rule w)
  then have 5: "store_calls (run (sql_store integer_range) demo_library
        \<lparr>status_code = 200, body = ''twice''\<rparr> empty_db) = []"
    by (elim conjE)
  have 6: "Inr \<lparr>columns = map clean_name (columns demo_times),
            rows = map (\<lambda>cells.
              map (\<lambda>cv. if fst cv = ''start'' \<or> fst cv = ''end''
                         then to_datetime_coerce demo_ts (snd cv) else snd cv)
                (zip (map clean_name (columns demo_times)) cells)) (rows demo_times)\<rparr>
     = (Inr \<lparr>columns = [''start'', ''end'', ''Age_Group''],
          rows = [[PTime 1704448800, PNaT, PStr ''18-25'']]\<rparr> :: pyerr + frame)"
    by (simp add: demo_times_def name_eval to_datetime_coerce_def demo_ts_def)
  show ?thesis
    by (intro conjI) (simp only: 1 6, fact 2, fact 3, fact 4, fact 5)
qed

text \<open>
  Claim C8. As stated, the coercion aborts the run for no input. A table with the labels
  \<open>start\<close> and \<open> start\<close> has two columns that clean to \<open>start\<close>; \<open>df['start']\<close> is then a
  frame, \<open>pd.to_datetime\<close> raises \<open>ValueError\<close> on it whatever the cells hold, and line 50 is
  outside every \<open>try\<close>: the run ends there, before the store is reached.
\<close>

theorem two_start_columns_abort_the_run:
  "clean_name ''start'' = ''start'' \<and> clean_name '' start'' = ''start''
   \<and> clean_frame (\<lambda>v. Some 0) demo_twice = Inl ValueError
   \<and> run (sql_store integer_range) demo_library \<lparr>status_code = 200, body = ''twice''\<rparr> empty_db
      = \<lparr>outcome = Uncaught ValueError,
         console = [Fetching, Fetched_ok, Fetched_records 1, Columns_found 3, Processing],
         store_calls = [], database = empty_db, inserted = 0, failed = 0\<rparr>"
  by (simp add: run_def demo_library_def crashed_def clean_frame_def convert_column_def
      demo_twice_def name_eval)

section \<open>Properties of the run\<close>

text \<open>
  Claim C6. When the status of the response is not 200, the run is the \<open>else\<close> branch of
  line 195 and nothing more: the failure and the three things to check are printed, the
  store is never called (no connection, no statement, no row), the database is the one the
  run found, and the run does not succeed. The one response is all the run ever asks for.
\<close>

theorem refused_fetch_touches_nothing:
  "status_code resp \<noteq> 200 \<Longrightarrow>
     run st lib resp d =
       \<lparr>outcome = Fetch_refused,
        console = [Fetching, Fetch_failed (status_code resp), Please_check, Check_credentials,
                   Check_url, Check_internet],
        store_calls = [], database = d, inserted = 0, failed = 0\<rparr>"
  by (simp add: run_def)

theorem refused_fetch_touches_nothing_witness:
  "run (sql_store (\<lambda>r. None)) demo_library \<lparr>status_code = 403, body = ''Forbidden''\<rparr> empty_db =
     \<lparr>outcome = Fetch_refused,
      console = [Fetching, Fetch_failed 403, Please_check, Check_credentials, Check_url,
                 Check_internet],
      store_calls = [], database = empty_db, inserted = 0, failed = 0\<rparr>"
  using refused_fetch_touches_nothing[of "\<lparr>status_code = 403, body = ''Forbidden''\<rparr>"
      "sql_store (\<lambda>r. None)" demo_library empty_db]
  by simp

section \<open>Properties of the run on PostgreSQL\<close>

lemmas sql_eval = exec_def sql_store_def sql_execute_def sql_commit_def say_def

lemma sql_execute_durable: "durable (snd (sql_execute refuse c q)) = durable c"
  by (simp add: sql_execute_def split: option.splits sum.splits)

lemma sql_execute_aborted: "aborted c \<Longrightarrow> aborted (snd (sql_execute refuse c q))"
  by (simp add: sql_execute_def split: option.splits sum.splits)

lemma sql_insert_row_conn:
  "conn (insert_row (sql_store refuse) parse m len s ir)
     = snd (sql_execute refuse (conn s)
         (Insert_row schema_name table_name (make_row parse m (snd ir))))"
  by (simp add: insert_row_def exec_def sql_store_def Let_def split: prod.splits option.splits)

lemma sql_insert_rows_durable:
  "durable (conn (insert_rows (sql_store refuse) parse m len s irs)) = durable (conn s)"
  by (induction irs arbitrary: s) (simp_all add: sql_insert_row_conn sql_execute_durable)

lemma sql_insert_rows_aborted:
  "aborted (conn s) \<Longrightarrow> aborted (conn (insert_rows (sql_store refuse) parse m len s irs))"
  by (induction irs arbitrary: s) (simp_all add: sql_insert_row_conn sql_execute_aborted)

lemma sql_insert_keeps_table:
  assumes "tables (working c) (schema_name, table_name) = Some rs"
  shows "\<exists>rs'. tables (working (snd (sql_execute refuse c (Insert_row schema_name table_name r))))
            (schema_name, table_name) = Some rs'"
  using assms by (simp add: sql_execute_def split: option.splits sum.splits refusal.splits)

lemma sql_refused_insert_aborts:
  assumes "tables (working c) (schema_name, table_name) = Some rs"
    and "refuse r = Some (Refused e)"
  shows "aborted (snd (sql_execute refuse c (Insert_row schema_name table_name r)))"
  using assms by (simp add: sql_execute_def)

lemma sql_insert_rows_abort:
  assumes "\<exists>ir\<in>set irs. \<exists>e. refuse (make_row parse m (snd ir)) = Some (Refused e)"
    and "tables (working (conn s)) (schema_name, table_name) = Some rs"
  shows "aborted (conn (insert_rows (sql_store refuse) parse m len s irs))"
  using assms
proof (induction irs arbitrary: s rs)
  case Nil
  then show ?case by simp
next
  case (Cons ir irs)
  let ?s1 = "insert_row (sql_store refuse) parse m len s ir"
  show ?case
  proof (cases "\<exists>e. refuse (make_row parse m (snd ir)) = Some (Refused e)")
    case True
    then obtain e where "refuse (make_row parse m (snd ir)) = Some (Refused e)" by blast
    from sql_refused_insert_aborts[where refuse = refuse and r = "make_row parse m (snd ir)",
        OF Cons.prems(2) this]
    have "aborted (conn ?s1)" by (simp add: sql_insert_row_conn)
    then show ?thesis by (simp add: sql_insert_rows_aborted)
  next
    case False
    with Cons.prems(1)
    have t: "\<exists>ir\<in>set irs. \<exists>e. refuse (make_row parse m (snd ir)) = Some (Refused e)" by auto
    from sql_insert_keeps_table[OF Cons.prems(2), of refuse "make_row parse m (snd ir)"]
    obtain rs' where "tables (working (conn ?s1)) (schema_name, table_name) = Some rs'"
      by (auto simp: sql_insert_row_conn)
    from Cons.IH[OF t this] show ?thesis by simp
  qed
qed

lemma sql_accepted_insert:
  assumes "tables (working (conn s)) (schema_name, table_name) = Some rs"
    and "\<not> aborted (conn s)"
    and "refuse (make_row parse m (snd ir)) = None"
  shows "tables (working (conn (insert_row (sql_store refuse) parse m len s ir)))
           (schema_name, table_name) = Some (rs @ [make_row parse m (snd ir)])
       \<and> \<not> aborted (conn (insert_row (sql_store refuse) parse m len s ir))
       \<and> schemas (working (conn (insert_row (sql_store refuse) parse m len s ir)))
           = schemas (working (conn s))
       \<and> records_inserted (insert_row (sql_store refuse) parse m len s ir) = records_inserted s + 1
       \<and> errors_count (insert_row (sql_store refuse) parse m len s ir) = errors_count s"
  using assms by (simp add: insert_row_def sql_eval Let_def)

lemma sql_accepted_inserts:
  assumes "\<forall>ir\<in>set irs. refuse (make_row parse m (snd ir)) = None"
    and "tables (working (conn s)) (schema_name, table_name) = Some rs"
    and "\<not> aborted (conn s)"
  shows "tables (working (conn (insert_rows (sql_store refuse) parse m len s irs)))
           (schema_name, table_name) = Some (rs @ map (\<lambda>ir. make_row parse m (snd ir)) irs)
       \<and> \<not> aborted (conn (insert_rows (sql_store refuse) parse m len s irs))
       \<and> schemas (working (conn (insert_rows (sql_store refuse) parse m len s irs)))
           = schemas (working (conn s))
       \<and> records_inserted (insert_rows (sql_store refuse) parse m len s irs)
           = records_inserted s + length irs
       \<and> errors_count (insert_rows (sql_store refuse) parse m len s irs) = errors_count s"
  using assms
proof (induction irs arbitrary: s rs)
  case Nil
  then show ?case by simp
next
  case (Cons ir irs)
  from Cons.prems(1) have h: "refuse (make_row parse m (snd ir)) = None"
    and t: "\<forall>ir\<in>set irs. refuse (make_row parse m (snd ir)) = None" by simp_all
  note step = sql_accepted_insert[where refuse = refuse and parse = parse and m = m
      and ir = ir and len = len, OF Cons.prems(2,3) h]
  from step Cons.IH[OF t, of "insert_row (sql_store refuse) parse m len s ir"
      "rs @ [make_row parse m (snd ir)]"]
  show ?case by simp
qed


lemma sql_prepare_table:
  assumes "\<not> aborted (conn s)"
  shows "\<exists>s1. prepare_table (sql_store refuse) s = Inr s1
      \<and> tables (working (conn s1)) (schema_name, table_name) = Some []
      \<and> schema_name \<in> schemas (working (conn s1))
      \<and> \<not> aborted (conn s1) \<and> durable (conn s1) = durable (conn s)
      \<and> records_inserted s1 = records_inserted s \<and> errors_count s1 = errors_count s
      \<and> calls s1 = calls s @ [Execute (Create_schema schema_name),
           Execute (Drop_table schema_name table_name),
           Execute (Create_table schema_name table_name)]"
  using assms by (simp add: prepare_table_def sql_eval)

lemma sql_verify_durable:
  "(verify (sql_store refuse) s = Inl es \<longrightarrow> durable (conn (snd es)) = durable (conn s))
   \<and> (verify (sql_store refuse) s = Inr s3 \<longrightarrow> durable (conn s3) = durable (conn s))"
  using sql_execute_durable[of refuse "conn s" "Select_count schema_name table_name"]
  by (auto simp: verify_def exec_def sql_store_def split: prod.splits option.splits)

lemma sql_run_loop_abort:
  assumes "\<exists>row\<in>set (frame_rows df). \<exists>e.
      refuse (make_row parse (find_columns (columns df)) row) = Some (Refused e)"
    and "tables (working (conn s)) (schema_name, table_name) = Some rs"
  shows "aborted (conn (run_loop (sql_store refuse) parse df s))"
proof -
  from assms(1) have "\<exists>ir\<in>set (enumerate 0 (frame_rows df)). \<exists>e.
      refuse (make_row parse (find_columns (columns df)) (snd ir)) = Some (Refused e)"
    by (metis (no_types, lifting) in_set_conv_nth length_enumerate nth_enumerate_eq snd_conv nth_mem)
  moreover have "tables (working (conn (say (Inserting (length (rows df))) s)))
      (schema_name, table_name) = Some rs"
    using assms(2) by (simp add: say_def)
  ultimately show ?thesis
    unfolding run_loop_def by (rule sql_insert_rows_abort)
qed

text \<open>A run in which the server refuses a row leaves the database as it found it.\<close>

lemma sql_upload_refused:
  assumes "\<exists>row\<in>set (frame_rows df). \<exists>e.
      refuse (make_row parse (find_columns (columns df)) row) = Some (Refused e)"
  shows "database (upload (sql_store refuse) parse df d out) = d"
proof -
  define s0 :: "connection session" where
    "s0 = \<lparr>conn = \<lparr>durable = d, working = d, aborted = False, fetched = 0\<rparr>,
           printed = out @ [Connected], calls = [Connect], records_inserted = 0,
           errors_count = 0\<rparr>"
  have "\<not> aborted (conn s0)" by (simp add: s0_def)
  from sql_prepare_table[OF this, of refuse]
  obtain s1 where s1: "prepare_table (sql_store refuse) s0 = Inr s1"
    "tables (working (conn s1)) (schema_name, table_name) = Some []"
    "durable (conn s1) = durable (conn s0)"
    by blast
  let ?l = "run_loop (sql_store refuse) parse df s1"
  have ab: "aborted (conn ?l)" using sql_run_loop_abort[OF assms s1(2)] .
  have du: "durable (conn ?l) = d"
    using s1(3) by (simp add: run_loop_def sql_insert_rows_durable say_def s0_def)
  define s2 where "s2 = ?l\<lparr>conn := (conn ?l)\<lparr>working := durable (conn ?l), aborted := False\<rparr>,
      calls := calls ?l @ [Commit],
      printed := printed ?l @ Inserted_ok (records_inserted ?l)
        # (if 0 < errors_count ?l then [Failed_count (errors_count ?l)] else [])\<rparr>"
  have l: "load (sql_store refuse) parse df s1 = Inr s2"
    using ab by (simp add: load_def Let_def sql_store_def sql_commit_def s2_def)
  have d2: "durable (conn s2) = d" using du by (simp add: s2_def)
  show ?thesis
  proof (cases "verify (sql_store refuse) s2")
    case (Inl es)
    with sql_verify_durable[of refuse s2 es] d2 have "durable (conn (snd es)) = d" by simp
    with s1(1) l Inl show ?thesis
      by (simp add: upload_def sql_store_def s0_def caught_def)
  next
    case (Inr s3)
    with sql_verify_durable[of refuse s2 _ s3] d2 have "durable (conn s3) = d" by simp
    with s1(1) l Inr show ?thesis
      by (simp add: upload_def sql_store_def s0_def)
  qed
qed

text \<open>A run in which every row is accepted leaves its own rows in the table.\<close>

lemma sql_upload_accepted:
  assumes "\<forall>row\<in>set (frame_rows df).
      refuse (make_row parse (find_columns (columns df)) row) = None"
  shows "outcome (upload (sql_store refuse) parse df d out) = Succeeded
   \<and> tables (database (upload (sql_store refuse) parse df d out)) (schema_name, table_name)
       = Some (map (make_row parse (find_columns (columns df))) (frame_rows df))
   \<and> schema_name \<in> schemas (database (upload (sql_store refuse) parse df d out))
   \<and> inserted (upload (sql_store refuse) parse df d out) = length (rows df)
   \<and> failed (upload (sql_store refuse) parse df d out) = 0"
proof -
  let ?rows = "map (make_row parse (find_columns (columns df))) (frame_rows df)"
  define s0 :: "connection session" where
    "s0 = \<lparr>conn = \<lparr>durable = d, working = d, aborted = False, fetched = 0\<rparr>,
           printed = out @ [Connected], calls = [Connect], records_inserted = 0,
           errors_count = 0\<rparr>"
  have "\<not> aborted (conn s0)" by (simp add: s0_def)
  from sql_prepare_table[OF this, of refuse]
  obtain s1 where s1: "prepare_table (sql_store refuse) s0 = Inr s1"
    "tables (working (conn s1)) (schema_name, table_name) = Some []"
    "schema_name \<in> schemas (working (conn s1))"
    "\<not> aborted (conn s1)"
    "records_inserted s1 = records_inserted s0" "errors_count s1 = errors_count s0"
    by blast
  let ?l = "run_loop (sql_store refuse) parse df s1"
  let ?s = "say (Inserting (length (rows df))) s1"
  have a: "\<forall>ir\<in>set (enumerate 0 (frame_rows df)).
      refuse (make_row parse (find_columns (columns df)) (snd ir)) = None"
    using assms by (auto simp: in_set_enumerate_eq)
  have t: "tables (working (conn ?s)) (schema_name, table_name) = Some []"
    and n: "\<not> aborted (conn ?s)"
    using s1 by (simp_all add: say_def)
  from sql_accepted_inserts[where refuse = refuse and parse = parse
      and m = "find_columns (columns df)" and len = "length (rows df)", OF a t n]
    map_snd_enumerate_fun[of "make_row parse (find_columns (columns df))" 0 "frame_rows df"]
  have loop: "tables (working (conn ?l)) (schema_name, table_name) = Some ?rows"
    "\<not> aborted (conn ?l)" "schemas (working (conn ?l)) = schemas (working (conn s1))"
    "records_inserted ?l = length (rows df)" "errors_count ?l = 0"
    using s1(5,6) by (simp_all add: run_loop_def say_def s0_def frame_rows_def)
  define s2 where "s2 = ?l\<lparr>conn := (conn ?l)\<lparr>durable := working (conn ?l)\<rparr>,
      calls := calls ?l @ [Commit],
      printed := printed ?l @ [Inserted_ok (records_inserted ?l)]\<rparr>"
  have l: "load (sql_store refuse) parse df s1 = Inr s2"
    using loop(2,5) by (simp add: load_def Let_def sql_store_def sql_commit_def s2_def)
  have w2: "tables (working (conn s2)) (schema_name, table_name) = Some ?rows"
    "\<not> aborted (conn s2)" "durable (conn s2) = working (conn s2)"
    using loop by (simp_all add: s2_def)
  obtain s3 where s3: "verify (sql_store refuse) s2 = Inr s3" "durable (conn s3) = durable (conn s2)"
    "records_inserted s3 = records_inserted s2" "errors_count s3 = errors_count s2"
    using w2 by (simp add: verify_def sql_eval)
  have "upload (sql_store refuse) parse df d out =
      \<lparr>outcome = Succeeded, console = printed s3, store_calls = calls s3,
       database = durable (conn s3), inserted = records_inserted s3,
       failed = errors_count s3\<rparr>"
    using s1(1) l s3(1) by (simp add: upload_def sql_store_def s0_def)
  then show ?thesis
    using s3 w2 loop s1(3) by (simp add: s2_def)
qed


lemma demo_batch_clean: "clean_frame ts demo_batch = Inr demo_batch"
  by (simp add: clean_frame_def convert_column_def demo_batch_def name_eval)

lemma demo_batch_columns:
  "find_columns (columns demo_batch) =
     \<lparr>age_col = [''age_group''], vacc_col = [], visit_col = [''visits''],
      exercise_col = [], water_col = [], sleep_col = [], insurance_col = [], gender_col = []\<rparr>"
  by (simp add: find_columns_def demo_batch_def lower_eval)

lemma demo_batch_rows:
  "map (make_row demo_float (find_columns (columns demo_batch))) (frame_rows demo_batch) =
     [\<lparr>submission_start = PNone, submission_end = PNone, age_group = PStr ''18-25'',
       gender = PNone, vaccination_status = PNone, healthcare_visits_count = PInt 3,
       exercise_frequency = PNone, water_source = PNone, sleep_hours = PFloat (Finite 0),
       health_insurance = PNone\<rparr>,
      \<lparr>submission_start = PNone, submission_end = PNone, age_group = PStr ''26-35'',
       gender = PNone, vaccination_status = PNone, healthcare_visits_count = PInt 0,
       exercise_frequency = PNone, water_source = PNone, sleep_hours = PFloat (Finite 0),
       health_insurance = PNone\<rparr>,
      \<lparr>submission_start = PNone, submission_end = PNone, age_group = PStr ''36-45'',
       gender = PNone, vaccination_status = PNone, healthcare_visits_count = PInt 3000000000,
       exercise_frequency = PNone, water_source = PNone, sleep_hours = PFloat (Finite 0),
       health_insurance = PNone\<rparr>]"
  unfolding demo_batch_columns
  by (simp add: demo_batch_def frame_rows_def make_row_def pick_def row_get_def
      coerce_visit_def visit_try_def coerce_sleep_def sleep_try_def
      round_double_def cut_fraction_def)

text \<open>
  Claim C1, on PostgreSQL. The batch of three records is loaded on the empty database;
  the server refuses the last insert, whose visit count is out of range, and accepts the
  two before it. Exactly one insert raises; the loop counts two rows as inserted and one
  as failed, prints the one warning, and the commit raises nothing. But the failed
  statement has made the transaction fail, so the commit is a rollback: the two rows the
  script reports as inserted are not stored, nor is the table, whose creation was part of
  the same transaction. The count of line 177 then finds no table and the run ends in the
  \<open>except\<close> of line 190.
\<close>

theorem refused_row_undoes_the_load:
  "tables (database batch_run) (schema_name, table_name) = None
   \<and> batch_run =
     \<lparr>outcome = Store_error ''relation does not exist'',
      console = [Fetching, Fetched_ok, Fetched_records 3, Columns_found 2, Processing, Cleaned 3,
        Connecting, Connected, Schema_ready schema_name, Table_created table_name, Inserting 3,
        Row_warning 2 ''integer out of range'', Inserted_ok 2, Failed_count 1,
        Postgres_error ''relation does not exist''],
      store_calls = Connect # Execute (Create_schema schema_name)
        # Execute (Drop_table schema_name table_name)
        # Execute (Create_table schema_name table_name)
        # map (\<lambda>t. Execute (Insert_row schema_name table_name t))
            (map (make_row demo_float (find_columns (columns demo_batch))) (frame_rows demo_batch))
        @ [Commit, Execute (Select_count schema_name table_name)],
      database = empty_db, inserted = 2, failed = 1\<rparr>"
proof -
  have e: "batch_run =
     \<lparr>outcome = Store_error ''relation does not exist'',
      console = [Fetching, Fetched_ok, Fetched_records 3, Columns_found 2, Processing, Cleaned 3,
        Connecting, Connected, Schema_ready schema_name, Table_created table_name, Inserting 3,
        Row_warning 2 ''integer out of range'', Inserted_ok 2, Failed_count 1,
        Postgres_error ''relation does not exist''],
      store_calls = Connect # Execute (Create_schema schema_name)
        # Execute (Drop_table schema_name table_name)
        # Execute (Create_table schema_name table_name)
        # map (\<lambda>t. Execute (Insert_row schema_name table_name t))
            (map (make_row demo_float (find_columns (columns demo_batch))) (frame_rows demo_batch))
        @ [Commit, Execute (Select_count schema_name table_name)],
      database = empty_db, inserted = 2, failed = 1\<rparr>"
    unfolding batch_run_def run_def demo_batch_rows
    apply (simp add: demo_library_def demo_batch_clean Let_def)
    apply (simp add: upload_def prepare_table_def load_def run_loop_def verify_def
        sql_eval demo_batch_columns Let_def empty_db_def)
    apply (simp add: demo_batch_def frame_rows_def enumerate_eq_zip insert_row_def sql_eval
        make_row_def pick_def row_get_def coerce_visit_def visit_try_def coerce_sleep_def
        sleep_try_def round_double_def cut_fraction_def integer_range_def Let_def caught_def)
    done
  have "tables (database batch_run) (schema_name, table_name) = None"
    unfolding e by (simp add: empty_db_def)
  with e show ?thesis by simp
qed


lemma demo_clean_rows:
  "map (make_row demo_float (find_columns (columns demo_clean))) (frame_rows demo_clean) =
     [\<lparr>submission_start = PNone, submission_end = PNone, age_group = PStr ''18-25'',
       gender = PStr ''F'', vaccination_status = PStr ''yes'', healthcare_visits_count = PInt 0,
       exercise_frequency = PNone, water_source = PNone, sleep_hours = PFloat (Finite 0),
       health_insurance = PNone\<rparr>,
      \<lparr>submission_start = PNone, submission_end = PNone, age_group = PFloat NaN,
       gender = PStr ''M'', vaccination_status = PStr ''no'', healthcare_visits_count = PInt 0,
       exercise_frequency = PNone, water_source = PNone, sleep_hours = PFloat (Finite 0),
       health_insurance = PNone\<rparr>]"
  unfolding demo_columns
  by (simp add: demo_clean_def frame_rows_def make_row_def pick_def row_get_def
      coerce_visit_def visit_try_def coerce_sleep_def sleep_try_def
      round_double_def cut_fraction_def)

lemma first_run_upload:
  "first_run = upload (sql_store integer_range) demo_float demo_clean empty_db
     [Fetching, Fetched_ok, Fetched_records 2, Columns_found 5, Processing, Cleaned 2, Connecting]"
  by (simp add: first_run_def run_def demo_library_def demo_clean_frame Let_def)
     (simp add: demo_frame_def demo_clean_def eval_nat_numeral)

lemma first_run_accepted:
  "\<forall>row\<in>set (frame_rows demo_clean).
     integer_range (make_row demo_float (find_columns (columns demo_clean)) row) = None"
proof -
  have "\<forall>t\<in>set (map (make_row demo_float (find_columns (columns demo_clean)))
      (frame_rows demo_clean)). integer_range t = None"
    unfolding demo_clean_rows by (simp add: integer_range_def)
  then show ?thesis by simp
qed

lemma batch_after_a_run:
  assumes "tables d (schema_name, table_name) = Some rs"
  shows "run (sql_store integer_range) demo_library \<lparr>status_code = 200, body = ''batch''\<rparr> d =
     \<lparr>outcome = Succeeded,
      console = [Fetching, Fetched_ok, Fetched_records 3, Columns_found 2, Processing, Cleaned 3,
        Connecting, Connected, Schema_ready schema_name, Table_created table_name, Inserting 3,
        Row_warning 2 ''integer out of range'', Inserted_ok 2, Failed_count 1,
        Total_records (length rs), Connection_closed, Rule, Pipeline_completed, Rule],
      store_calls = Connect # Execute (Create_schema schema_name)
        # Execute (Drop_table schema_name table_name)
        # Execute (Create_table schema_name table_name)
        # map (\<lambda>t. Execute (Insert_row schema_name table_name t))
            (map (make_row demo_float (find_columns (columns demo_batch))) (frame_rows demo_batch))
        @ [Commit, Execute (Select_count schema_name table_name), Fetchone, Close],
      database = d, inserted = 2, failed = 1\<rparr>"
  unfolding run_def demo_batch_rows
  apply (simp add: demo_library_def demo_batch_clean Let_def)
  apply (simp add: upload_def prepare_table_def load_def run_loop_def verify_def
      sql_eval demo_batch_columns Let_def)
  apply (simp add: demo_batch_def frame_rows_def enumerate_eq_zip insert_row_def sql_eval
      make_row_def pick_def row_get_def coerce_visit_def visit_try_def coerce_sleep_def
      sleep_try_def round_double_def cut_fraction_def integer_range_def Let_def caught_def assms)
  done

text \<open>
  Claim C7, on PostgreSQL. The first run loads the two records of the scenario and
  succeeds. The second run sends the creation of the schema, the drop and the creation of
  the table and its three inserts; the server refuses the last one. The commit is then a
  rollback, and it undoes the drop and the creation with the inserts: the second run prints
  two rows as inserted, reads back the count 2 and ends as completed, while the table holds
  the two rows of the first run and none of the second.
\<close>

theorem refused_row_keeps_the_old_table:
  "outcome first_run = Succeeded \<and> inserted first_run = 2 \<and> failed first_run = 0
   \<and> tables (database first_run) (schema_name, table_name)
       = Some (map (make_row demo_float (find_columns (columns demo_clean))) (frame_rows demo_clean))
   \<and> outcome second_run = Succeeded \<and> inserted second_run = 2 \<and> failed second_run = 1
   \<and> console second_run =
       [Fetching, Fetched_ok, Fetched_records 3, Columns_found 2, Processing, Cleaned 3,
        Connecting, Connected, Schema_ready schema_name, Table_created table_name, Inserting 3,
        Row_warning 2 ''integer out of range'', Inserted_ok 2, Failed_count 1,
        Total_records 2, Connection_closed, Rule, Pipeline_completed, Rule]
   \<and> database second_run = database first_run
   \<and> tables (database second_run) (schema_name, table_name)
       = Some (map (make_row demo_float (find_columns (columns demo_clean))) (frame_rows demo_clean))
   \<and> map age_group (map (make_row demo_float (find_columns (columns demo_clean)))
        (frame_rows demo_clean)) = [PStr ''18-25'', PFloat NaN]
   \<and> map age_group (map (make_row demo_float (find_columns (columns demo_batch)))
        (frame_rows demo_batch)) = [PStr ''18-25'', PStr ''26-35'', PStr ''36-45'']"
proof -
  note f = sql_upload_accepted[OF first_run_accepted, of empty_db
      "[Fetching, Fetched_ok, Fetched_records 2, Columns_found 5, Processing, Cleaned 2, Connecting]",
      folded first_run_upload]
  have l: "length (rows demo_clean) = 2" by (simp add: demo_clean_def)
  from f have t: "tables (database first_run) (schema_name, table_name)
      = Some (map (make_row demo_float (find_columns (columns demo_clean))) (frame_rows demo_clean))"
    by blast
  have n: "length (map (make_row demo_float (find_columns (columns demo_clean)))
      (frame_rows demo_clean)) = 2"
    by (simp add: frame_rows_def demo_clean_def)
  note s = batch_after_a_run[OF t, folded second_run_def, unfolded n]
  have a1: "map age_group (map (make_row demo_float (find_columns (columns demo_clean)))
        (frame_rows demo_clean)) = [PStr ''18-25'', PFloat NaN]"
    unfolding demo_clean_rows by simp
  have a2: "map age_group (map (make_row demo_float (find_columns (columns demo_batch)))
        (frame_rows demo_batch)) = [PStr ''18-25'', PStr ''26-35'', PStr ''36-45'']"
    unfolding demo_batch_rows by simp
  have s2: "outcome second_run = Succeeded" "inserted second_run = 2" "failed second_run = 1"
    "database second_run = database first_run"
    "console second_run =
       [Fetching, Fetched_ok, Fetched_records 3, Columns_found 2, Processing, Cleaned 3,
        Connecting, Connected, Schema_ready schema_name, Table_created table_name, Inserting 3,
        Row_warning 2 ''integer out of range'', Inserted_ok 2, Failed_count 1,
        Total_records 2, Connection_closed, Rule, Pipeline_completed, Rule]"
    by (simp_all add: s)
  from f have f1: "outcome first_run = Succeeded" "inserted first_run = 2" "failed first_run = 0"
    using l by simp_all
  have t2: "tables (database second_run) (schema_name, table_name)
       = Some (map (make_row demo_float (find_columns (columns demo_clean))) (frame_rows demo_clean))"
    using t s2(4) by simp
  show ?thesis
    by (intro conjI) (fact f1 t s2 t2 a1 a2)+
qed

end
